theory Spec2Isabelle
  imports
    Main
    "HOL-Library.Word"
    "HOL-Library.Tree"
    "HOL-Library.Char_ord"
    "HOL-Library.List_Lexorder"
begin

unbundle bit_operations_syntax

section \<open>Error codes and machine integers\<close>

text \<open>
  The functions of \<^verbatim>\<open>peer.c\<close> return 0 or a negated errno. The model returns
  \<open>Inr\<close> of the result for success and \<open>Inl\<close> of the errno for failure.  The names the
  specification uses: InvalidArg is \<open>EINVAL\<close>, NotPermitted \<open>EPERM\<close>, AlreadyShutDown
  \<open>ESHUTDOWN\<close>, AlreadyConnected \<open>EISCONN\<close>, NotConnected \<open>ENOTCONN\<close>, NameExists
  \<open>EISNAM\<close>, RemoteChanged \<open>EREMCHG\<close>, NotFound \<open>ENXIO\<close>, NotSupported \<open>ENOTTY\<close>,
  WouldBlock \<open>EAGAIN\<close>, OutOfMemory \<open>ENOMEM\<close>, MsgTooBig \<open>EMSGSIZE\<close>, Fault \<open>EFAULT\<close>,
  Interrupted \<open>EINTR\<close>.
\<close>

datatype errno =
    EINVAL | EPERM | ESHUTDOWN | EISCONN | ENOTCONN | EISNAM | EREMCHG
  | ENXIO | ENOTTY | EAGAIN | ENOMEM | EMSGSIZE | EFAULT | EINTR | EMFILE

type_synonym u64 = "64 word"

text \<open>An \<^verbatim>\<open>int\<close> return value: \<open>Inr ()\<close> is 0, \<open>Inl e\<close> is \<^verbatim>\<open>-e\<close>.\<close>

type_synonym retval = "errno + unit"

abbreviation OK :: retval where
  "OK \<equiv> Inr ()"

section \<open>C strings\<close>

text \<open>
  A name is a byte string; \<open>char\<close> is a byte.  A buffer that holds a C string is a
  \<open>char list\<close> that may contain the terminator \<open>CHR 0x00\<close>; \<open>cstr\<close> is the string C
  reads from it, the bytes before the first terminator.
\<close>

definition NUL :: char where
  "NUL = CHR 0x00"

definition cstr :: "char list \<Rightarrow> char list" where
  "cstr buf = takeWhile (\<lambda>c. c \<noteq> NUL) buf"

text \<open>\<^verbatim>\<open>strnlen(s, maxlen)\<close> on a buffer of which \<open>maxlen\<close> bytes are readable.\<close>

definition strnlen :: "char list \<Rightarrow> nat \<Rightarrow> nat" where
  "strnlen buf maxlen = length (cstr (take maxlen buf))"

text \<open>
  \<^verbatim>\<open>strcmp\<close> on two strings given without their terminator (every caller passes
  \<open>cstr\<close> of a buffer or a stored name): bytes are compared as unsigned values, and
  where one string ends, its terminator 0 is less than any byte of the other.  The
  callers use the sign of the result only.
\<close>

fun strcmp :: "char list \<Rightarrow> char list \<Rightarrow> int" where
  "strcmp [] [] = 0"
| "strcmp [] (y # ys) = - 1"
| "strcmp (x # xs) [] = 1"
| "strcmp (x # xs) (y # ys) =
     (if x = y then strcmp xs ys
      else if (of_char x :: nat) < of_char y then - 1
      else 1)"

section \<open>Constants of headers that are not in the tree\<close>

text \<open>
  \<^verbatim>\<open>peer.c\<close> uses constants of \<^verbatim>\<open>uapi/linux/bus1.h\<close> and of the kernel that are not
  part of the tree.  They are parameters of the model; \<open>uapi\<close> below is one choice of
  values, used where a property is evaluated.  \<open>BITS_PER_LONG\<close> is the width of
  \<^verbatim>\<open>unsigned long\<close>.
\<close>

record bus1_consts =
  BUS1_NAME_MAX_SIZE :: nat
  PAGE_SIZE :: u64
  BITS_PER_LONG :: nat
  BUS1_CONNECT_FLAG_PEER :: u64
  BUS1_CONNECT_FLAG_MONITOR :: u64
  BUS1_CONNECT_FLAG_QUERY :: u64
  BUS1_CONNECT_FLAG_RESET :: u64
  BUS1_SEND_FLAG_IGNORE_UNKNOWN :: u64
  BUS1_SEND_FLAG_CONVEY_ERRORS :: u64
  BUS1_RECV_FLAG_PEEK :: u64
  BUS1_OFFSET_INVALID :: u64
  BUS1_VEC_MAX :: u64
  BUS1_FD_MAX :: u64

definition uapi :: bus1_consts where
  "uapi = \<lparr>BUS1_NAME_MAX_SIZE = 256, PAGE_SIZE = 4096, BITS_PER_LONG = 64,
     BUS1_CONNECT_FLAG_PEER = 1, BUS1_CONNECT_FLAG_MONITOR = 2,
     BUS1_CONNECT_FLAG_QUERY = 4, BUS1_CONNECT_FLAG_RESET = 8,
     BUS1_SEND_FLAG_IGNORE_UNKNOWN = 1, BUS1_SEND_FLAG_CONVEY_ERRORS = 2,
     BUS1_RECV_FLAG_PEEK = 1, BUS1_OFFSET_INVALID = - 1,
     BUS1_VEC_MAX = 512, BUS1_FD_MAX = 256\<rparr>"

section \<open>The active reference\<close>

text \<open>
  Modelled from the spec: \<^verbatim>\<open>struct bus1_active\<close> and its operations live in
  \<^verbatim>\<open>active.c\<close>, which is not part of the tree under verification.  The specification
  gives the states NEW, ACTIVE, DEACTIVATING and DEAD and the contract of each
  operation.  The model is sequential: between two calls no active reference is held,
  so the in-flight count is 0 and \<open>drain\<close> returns at once.
\<close>

datatype bus1_active = NEW | ACTIVE | DEACTIVATING | DEAD

text \<open>Modelled from the spec: \<open>is_new\<close> classifies a reference that was not activated.\<close>

definition bus1_active_is_new :: "bus1_active \<Rightarrow> bool" where
  "bus1_active_is_new a = (a = NEW)"

text \<open>Modelled from the spec: \<open>is_active\<close>; \<open>acquire\<close> succeeds in this state only.\<close>

definition bus1_active_is_active :: "bus1_active \<Rightarrow> bool" where
  "bus1_active_is_active a = (a = ACTIVE)"

text \<open>
  Modelled from the spec: \<open>is_deactivated\<close>; a reference is deactivated from
  \<open>deactivate\<close> on, so in DEACTIVATING and in DEAD.
\<close>

definition bus1_active_is_deactivated :: "bus1_active \<Rightarrow> bool" where
  "bus1_active_is_deactivated a = (a = DEACTIVATING \<or> a = DEAD)"

text \<open>Modelled from the spec: \<open>activate\<close> takes NEW to ACTIVE and nothing else.\<close>

definition bus1_active_activate :: "bus1_active \<Rightarrow> bus1_active" where
  "bus1_active_activate a = (if a = NEW then ACTIVE else a)"

text \<open>
  Modelled from the spec: \<open>deactivate\<close> takes ACTIVE to DEACTIVATING and is idempotent.
  The specification does not say what it does to a reference that is still NEW;
  \<open>new_too\<close> selects whether such a reference is deactivated as well, and every
  property below holds for both choices.
\<close>

definition bus1_active_deactivate :: "bool \<Rightarrow> bus1_active \<Rightarrow> bus1_active" where
  "bus1_active_deactivate new_too a =
     (if a = ACTIVE \<or> (new_too \<and> a = NEW) then DEACTIVATING else a)"

text \<open>
  Modelled from the spec: \<open>drain\<close> blocks until the in-flight count is zero.  In the
  sequential model the count is zero.
\<close>

definition bus1_active_drain :: "bus1_active \<Rightarrow> bus1_active" where
  "bus1_active_drain a = a"

text \<open>
  Modelled from the spec: \<open>cleanup\<close> is once-only.  The first cleanup after the drain
  invokes the callback on the state it works on, moves the reference to DEAD and
  returns true; every other call returns false and does nothing.
\<close>

definition bus1_active_cleanup ::
  "bus1_active \<Rightarrow> ('s \<Rightarrow> 's) \<Rightarrow> 's \<Rightarrow> bool \<times> bus1_active \<times> 's" where
  "bus1_active_cleanup a cleanup s =
     (if a = DEACTIVATING then (True, DEAD, cleanup s) else (False, a, s))"

section \<open>Peer names and the name index of a domain\<close>

text \<open>
  \<^verbatim>\<open>struct bus1_peer_name\<close>: the name, the owning peer (a pointer in C, the peer's
  identity here) and the rb-tree link.  \<open>pn_linked\<close> is \<^verbatim>\<open>!RB_EMPTY_NODE(&peer_name->rb)\<close>.
  The \<^verbatim>\<open>next\<close> pointer is the position in the list that holds the name.
\<close>

record bus1_peer_name =
  pn_name :: "char list"
  pn_peer :: nat
  pn_linked :: bool

text \<open>
  The index \<^verbatim>\<open>domain->map_names\<close> is an rb-tree of the names, ordered by
  \<^verbatim>\<open>strcmp\<close>.  A tree node carries the name and its owner.  The rebalancing of
  the kernel's rb-tree is not modelled: it changes the shape of the tree and not the
  order of its entries.
\<close>

record name_entry =
  ne_name :: "char list"
  ne_peer :: nat

type_synonym name_index = "name_entry tree"

section \<open>The name index: insertion and removal\<close>

text \<open>
  The descent of \<^verbatim>\<open>bus1_peer_name_add\<close>: the loop follows \<^verbatim>\<open>strcmp\<close> down the tree,
  returns \<^verbatim>\<open>-EISNAM\<close> on an equal name and links the new node into the empty slot
  it ends on (\<^verbatim>\<open>rb_link_node_rcu\<close>).
\<close>

fun name_index_insert :: "name_entry \<Rightarrow> name_index \<Rightarrow> errno + name_index" where
  "name_index_insert e Leaf = Inr (Node Leaf e Leaf)"
| "name_index_insert e (Node l x r) =
     (let v = strcmp (ne_name e) (ne_name x) in
      if v = 0 then Inl EISNAM
      else if v < 0 then
        (case name_index_insert e l of Inl err \<Rightarrow> Inl err | Inr l' \<Rightarrow> Inr (Node l' x r))
      else
        (case name_index_insert e r of Inl err \<Rightarrow> Inl err | Inr r' \<Rightarrow> Inr (Node l x r')))"

text \<open>
  \<^verbatim>\<open>rb_erase\<close> is the kernel's; it takes the node out of the tree and keeps the order
  of the others.  The model finds the node by its name and, where the node has two
  children, puts its in-order successor in its place.
\<close>

fun split_min :: "'a tree \<Rightarrow> 'a \<Rightarrow> 'a tree \<Rightarrow> 'a \<times> 'a tree" where
  "split_min Leaf a r = (a, r)"
| "split_min (Node ll b lr) a r =
     (case split_min ll b lr of (m, l') \<Rightarrow> (m, Node l' a r))"

fun rb_erase :: "char list \<Rightarrow> name_index \<Rightarrow> name_index" where
  "rb_erase nm Leaf = Leaf"
| "rb_erase nm (Node l x r) =
     (let v = strcmp nm (ne_name x) in
      if v = 0 then
        (case r of
           Leaf \<Rightarrow> l
         | Node rl b rr \<Rightarrow> (case split_min rl b rr of (m, r') \<Rightarrow> Node l m r'))
      else if v < 0 then Node (rb_erase nm l) x r
      else Node l x (rb_erase nm r))"

text \<open>
  The index is ordered when its in-order sequence of names is strictly increasing
  for \<^verbatim>\<open>strcmp\<close>.
\<close>

definition index_ordered :: "name_index \<Rightarrow> bool" where
  "index_ordered t = sorted_wrt (\<lambda>a b. strcmp a b < 0) (map ne_name (inorder t))"

definition index_names :: "name_index \<Rightarrow> char list set" where
  "index_names t = ne_name ` set_tree t"

section \<open>Calls into the other modules\<close>

text \<open>
  The pool, the queue, the messages, the transactions, the users and the file
  descriptor table are other modules.  A call into one of them is recorded as an
  event, in the order of the calls; where \<^verbatim>\<open>peer.c\<close> uses the result of a call, the
  result is a parameter of the model.
\<close>

record bus1_pool_slice =
  slice_offset :: u64
  slice_size :: u64

datatype event =
    InfoLock
  | InfoUnlock
  | MessageDeallocate nat
  | MessageFree nat
  | QueuePostFlush
  | PoolFlush
  | QueueDestroy
  | PoolDestroy
  | QuotaDestroy
  | InfoKfree
  | NameKfree "char list"
  | UserRelease "nat option"
  | PoolPublish bus1_pool_slice
  | PoolWriteKvec "int list"
  | PutUnusedFd int
  | FdInstall int nat
  | TransactionInstantiate u64 u64
  | TransactionCommitForId u64 u64
  | TransactionCommit
  | TransactionFree bool

section \<open>Peer info\<close>

text \<open>
  A queue node with the message that embeds it (\<^verbatim>\<open>container_of(node, struct
  bus1_message, qnode)\<close>).  \<open>msg_id\<close> is the identity of the object, \<open>msg_linked\<close> is
  \<^verbatim>\<open>!RB_EMPTY_NODE(&node->rb)\<close>, \<open>msg_files\<close> are the attached files.
\<close>

record bus1_message =
  msg_id :: nat
  msg_is_message :: bool
  msg_committed :: bool
  msg_linked :: bool
  msg_slice :: bus1_pool_slice
  msg_files :: "nat list"

record bus1_queue =
  q_messages :: "bus1_message tree"

record bus1_pool =
  pool_size :: u64

record bus1_peer_info =
  info_user :: "nat option"
  info_pool :: bus1_pool
  info_queue :: bus1_queue

text \<open>
  Modelled from the spec: \<^verbatim>\<open>bus1_queue_post_flush\<close> is a function of \<^verbatim>\<open>queue.c\<close>.
  After a reset the queue holds no message (a RECV that follows a RESET returns
  WouldBlock), so the flush leaves the index of the queue empty.
\<close>

definition bus1_queue_post_flush :: "bus1_queue \<Rightarrow> bus1_queue" where
  "bus1_queue_post_flush q = q\<lparr>q_messages := Leaf\<rparr>"

text \<open>
  The loop of \<^verbatim>\<open>bus1_peer_info_reset\<close> over the nodes of the queue, in the order of
  the iteration.  The result is the nodes that still exist after the loop, with the
  link the loop leaves them, and the calls made.  A node that is not a message trips
  the \<^verbatim>\<open>WARN_ON\<close> and is skipped.
\<close>

fun reset_nodes :: "bus1_message list \<Rightarrow> bus1_message list \<times> event list" where
  "reset_nodes [] = ([], [])"
| "reset_nodes (m # ms) =
     (case reset_nodes ms of (kept, evs) \<Rightarrow>
        if \<not> msg_is_message m then (m # kept, evs)
        else if msg_committed m then
          (kept, MessageDeallocate (msg_id m) # MessageFree (msg_id m) # evs)
        else (m\<lparr>msg_linked := False\<rparr> # kept, evs))"

text \<open>
  \<^verbatim>\<open>bus1_peer_info_reset\<close>: the info after the call, the nodes of the queue that
  were not freed, and the calls made.
\<close>

definition bus1_peer_info_reset ::
  "bus1_peer_info \<Rightarrow> bus1_peer_info \<times> bus1_message list \<times> event list" where
  "bus1_peer_info_reset peer_info =
     (case reset_nodes (postorder (q_messages (info_queue peer_info))) of (kept, evs) \<Rightarrow>
        (peer_info\<lparr>info_queue := bus1_queue_post_flush (info_queue peer_info)\<rparr>,
         kept,
         [InfoLock] @ evs @ [QueuePostFlush, PoolFlush, InfoUnlock]))"

text \<open>\<^verbatim>\<open>bus1_peer_info_free\<close>: the calls made; the object is gone afterwards.\<close>

definition bus1_peer_info_free :: "bus1_peer_info option \<Rightarrow> event list" where
  "bus1_peer_info_free p =
     (case p of
        None \<Rightarrow> []
      | Some peer_info \<Rightarrow>
          (case bus1_peer_info_reset peer_info of (_, _, evs) \<Rightarrow>
             evs @ [QueueDestroy, PoolDestroy, QuotaDestroy, InfoKfree]))"

text \<open>
  What \<^verbatim>\<open>bus1_peer_info_new\<close> allocates: \<open>alloc_ok\<close> is whether \<^verbatim>\<open>kmalloc\<close> succeeds,
  \<open>pool_create\<close> the result of \<^verbatim>\<open>bus1_pool_create_for_peer\<close>, which on success
  creates a pool of the size asked for.  On a failure of the pool the function frees
  the info again; these calls are the second component.
\<close>

definition IS_ALIGNED :: "u64 \<Rightarrow> u64 \<Rightarrow> bool" where
  "IS_ALIGNED x a = (x AND (a - 1) = 0)"

definition bus1_peer_info_new ::
  "bus1_consts \<Rightarrow> bool \<Rightarrow> retval \<Rightarrow> u64 \<Rightarrow> (errno + bus1_peer_info) \<times> event list" where
  "bus1_peer_info_new K alloc_ok pool_create psize =
     (if psize = 0 \<or> \<not> IS_ALIGNED psize (PAGE_SIZE K) then (Inl EINVAL, [])
      else if \<not> alloc_ok then (Inl ENOMEM, [])
      else
        (case pool_create of
           Inl e \<Rightarrow>
             (Inl e,
              bus1_peer_info_free
                (Some \<lparr>info_user = None, info_pool = \<lparr>pool_size = 0\<rparr>,
                       info_queue = \<lparr>q_messages = Leaf\<rparr>\<rparr>))
         | Inr _ \<Rightarrow>
             (Inr \<lparr>info_user = None, info_pool = \<lparr>pool_size = psize\<rparr>,
                   info_queue = \<lparr>q_messages = Leaf\<rparr>\<rparr>, [])))"

section \<open>Peers and domains\<close>

text \<open>
  \<^verbatim>\<open>struct bus1_peer\<close>.  \<open>peer_id\<close> is the identity of the object; \<open>peer_names\<close> is
  the list linked through \<^verbatim>\<open>next\<close>, its head first.  The membership node
  \<^verbatim>\<open>link_domain\<close> is modelled by the list of the domain.
\<close>

record bus1_peer =
  peer_id :: nat
  peer_active :: bus1_active
  peer_info :: "bus1_peer_info option"
  peer_names :: "bus1_peer_name list"

text \<open>
  The fields of \<^verbatim>\<open>struct bus1_domain\<close> that \<^verbatim>\<open>peer.c\<close> reads and writes.  The two
  counters are machine integers.
\<close>

record bus1_domain =
  dom_map_names :: name_index
  dom_n_names :: u64
  dom_list_peers :: "nat list"
  dom_n_peers :: u64

definition bus1_peer_new :: "nat \<Rightarrow> bus1_peer" where
  "bus1_peer_new ident =
     \<lparr>peer_id = ident, peer_active = NEW, peer_info = None, peer_names = []\<rparr>"

text \<open>
  \<^verbatim>\<open>bus1_peer_name_new\<close>; \<open>alloc_ok\<close> is whether \<^verbatim>\<open>kmalloc\<close> succeeds.  The name
  passed is the C string at the pointer.
\<close>

definition bus1_peer_name_new ::
  "bus1_consts \<Rightarrow> bool \<Rightarrow> char list \<Rightarrow> nat \<Rightarrow> errno + bus1_peer_name" where
  "bus1_peer_name_new K alloc_ok nm peer =
     (let namelen = length nm + 1 in
      if namelen < 2 \<or> namelen > BUS1_NAME_MAX_SIZE K then Inl EMSGSIZE
      else if \<not> alloc_ok then Inl ENOMEM
      else Inr \<lparr>pn_name = nm, pn_peer = peer, pn_linked = False\<rparr>)"

definition bus1_peer_name_add ::
  "bus1_peer_name \<Rightarrow> bus1_domain \<Rightarrow> retval \<times> bus1_peer_name \<times> bus1_domain" where
  "bus1_peer_name_add peer_name domain =
     (if pn_linked peer_name then (Inl EINVAL, peer_name, domain)
      else
        (case name_index_insert
                \<lparr>ne_name = pn_name peer_name, ne_peer = pn_peer peer_name\<rparr>
                (dom_map_names domain) of
           Inl e \<Rightarrow> (Inl e, peer_name, domain)
         | Inr t \<Rightarrow>
             (OK, peer_name\<lparr>pn_linked := True\<rparr>,
              domain\<lparr>dom_map_names := t, dom_n_names := dom_n_names domain + 1\<rparr>)))"

definition bus1_peer_name_remove ::
  "bus1_peer_name \<Rightarrow> bus1_domain \<Rightarrow> bus1_peer_name \<times> bus1_domain" where
  "bus1_peer_name_remove peer_name domain =
     (if \<not> pn_linked peer_name then (peer_name, domain)
      else
        (peer_name\<lparr>pn_linked := False\<rparr>,
         domain\<lparr>dom_map_names := rb_erase (pn_name peer_name) (dom_map_names domain),
                dom_n_names := dom_n_names domain - 1\<rparr>))"

section \<open>Teardown\<close>

text \<open>
  The loop of \<^verbatim>\<open>bus1_peer_cleanup\<close> over the names of the peer: each name is taken
  off the list, removed from the index and freed.
\<close>

fun cleanup_names :: "bus1_peer_name list \<Rightarrow> bus1_domain \<Rightarrow> bus1_domain \<times> event list" where
  "cleanup_names [] domain = (domain, [])"
| "cleanup_names (peer_name # rest) domain =
     (case bus1_peer_name_remove peer_name domain of (peer_name', domain') \<Rightarrow>
        (case cleanup_names rest domain' of (domain'', evs) \<Rightarrow>
           (domain'', NameKfree (pn_name peer_name') # evs)))"

text \<open>
  \<^verbatim>\<open>bus1_peer_cleanup\<close>, the callback of \<^verbatim>\<open>bus1_active_cleanup\<close>.  It works on the
  peer, the domain and the calls made so far.  \<^verbatim>\<open>bus1_user_release\<close> returns NULL,
  as every release function of the module does.
\<close>

definition bus1_peer_cleanup ::
  "bus1_peer \<times> bus1_domain \<times> event list \<Rightarrow> bus1_peer \<times> bus1_domain \<times> event list" where
  "bus1_peer_cleanup s =
     (case s of (peer, domain, evs) \<Rightarrow>
        (case peer_info peer of
           None \<Rightarrow> (peer, domain, evs)
         | Some info \<Rightarrow>
             (case cleanup_names (peer_names peer) domain of (domain', evs') \<Rightarrow>
                (peer\<lparr>peer_names := [],
                      peer_info := Some (info\<lparr>info_user := None\<rparr>)\<rparr>,
                 domain'\<lparr>dom_list_peers := remove1 (peer_id peer) (dom_list_peers domain'),
                         dom_n_peers := dom_n_peers domain' - 1\<rparr>,
                 evs @ evs' @ [UserRelease (info_user info)]))))"

text \<open>
  \<^verbatim>\<open>bus1_peer_teardown\<close>: the return value, the peer and the domain after the call,
  and the calls made.
\<close>

definition bus1_peer_teardown ::
  "bool \<Rightarrow> bus1_peer \<Rightarrow> bus1_domain \<Rightarrow> retval \<times> bus1_peer \<times> bus1_domain \<times> event list" where
  "bus1_peer_teardown new_too peer domain =
     (let a = bus1_active_drain (bus1_active_deactivate new_too (peer_active peer)) in
      case bus1_active_cleanup a bus1_peer_cleanup (peer\<lparr>peer_active := a\<rparr>, domain, []) of
        (True, a', peer', domain', evs) \<Rightarrow>
          (OK, peer'\<lparr>peer_active := a', peer_info := None\<rparr>, domain',
           evs @ bus1_peer_info_free (peer_info peer'))
      | (False, a', peer', domain', evs) \<Rightarrow>
          (Inl ESHUTDOWN, peer'\<lparr>peer_active := a'\<rparr>, domain', evs))"

definition bus1_peer_teardown_domain ::
  "bus1_peer \<Rightarrow> bus1_domain \<Rightarrow> bus1_peer \<times> bus1_domain \<times> event list" where
  "bus1_peer_teardown_domain peer domain =
     (case bus1_active_cleanup (peer_active peer) bus1_peer_cleanup (peer, domain, []) of
        (True, a', peer', domain', evs) \<Rightarrow>
          (peer'\<lparr>peer_active := a', peer_info := None\<rparr>, domain',
           evs @ bus1_peer_info_free (peer_info peer'))
      | (False, a', peer', domain', evs) \<Rightarrow>
          (peer'\<lparr>peer_active := a'\<rparr>, domain', evs))"

text \<open>
  A sequence of teardown calls on one peer.  The calls are serialised by the lock of
  the domain, so an interleaving of callers is a sequence of calls.  Each call yields
  its return value (a domain-assisted teardown returns nothing) and the calls it
  made.
\<close>

datatype teardown_call = Teardown | TeardownDomain

fun teardown_step ::
  "bool \<Rightarrow> teardown_call \<Rightarrow> bus1_peer \<times> bus1_domain \<Rightarrow>
   (retval option \<times> event list) \<times> (bus1_peer \<times> bus1_domain)" where
  "teardown_step new_too Teardown (peer, domain) =
     (case bus1_peer_teardown new_too peer domain of
        (r, peer', domain', evs) \<Rightarrow> ((Some r, evs), (peer', domain')))"
| "teardown_step new_too TeardownDomain (peer, domain) =
     (case bus1_peer_teardown_domain peer domain of
        (peer', domain', evs) \<Rightarrow> ((None, evs), (peer', domain')))"

fun teardown_run ::
  "bool \<Rightarrow> teardown_call list \<Rightarrow> bus1_peer \<times> bus1_domain \<Rightarrow>
   (retval option \<times> event list) list \<times> (bus1_peer \<times> bus1_domain)" where
  "teardown_run new_too [] s = ([], s)"
| "teardown_run new_too (c # cs) s =
     (case teardown_step new_too c s of (out, s') \<Rightarrow>
        (case teardown_run new_too cs s' of (outs, s'') \<Rightarrow> (out # outs, s'')))"

text \<open>
  The body of \<^verbatim>\<open>bus1_peer_cleanup\<close> past its guard releases the user binding; the
  number of these releases among the calls made is the number of times the cleanup
  ran.
\<close>

definition is_user_release :: "event \<Rightarrow> bool" where
  "is_user_release ev = (case ev of UserRelease _ \<Rightarrow> True | _ \<Rightarrow> False)"

definition cleanup_runs :: "(retval option \<times> event list) list \<Rightarrow> nat" where
  "cleanup_runs outs = length (filter is_user_release (concat (map snd outs)))"

section \<open>CONNECT\<close>

text \<open>
  The parameter block of CONNECT after \<^verbatim>\<open>bus1_import_dynamic_ioctl\<close>, which copies
  \<^verbatim>\<open>param->size\<close> bytes: \<open>cp_names\<close> are the bytes that follow the fixed part, so
  \<^verbatim>\<open>param->size - sizeof(*param)\<close> is their number and \<^verbatim>\<open>param->size >
  sizeof(*param)\<close> says that there are some.
\<close>

record bus1_cmd_connect =
  cp_flags :: u64
  cp_pool_size :: u64
  cp_names :: "char list"

text \<open>
  \<^verbatim>\<open>bus1_peer_name_check\<close>: \<open>n_names\<close> counts the names passed so far.  The result
  is \<^verbatim>\<open>-EREMCHG\<close>, or 0 for a name that is not the last of the list, or the length of
  the list for the last one.
\<close>

fun name_check_from :: "nat \<Rightarrow> bus1_peer_name list \<Rightarrow> char list \<Rightarrow> errno + nat" where
  "name_check_from n_names [] nm = Inl EREMCHG"
| "name_check_from n_names (peer_name # rest) nm =
     (if strcmp nm (pn_name peer_name) = 0 then
        (if rest \<noteq> [] then Inr 0 else Inr (n_names + 1))
      else name_check_from (n_names + 1) rest nm)"

definition bus1_peer_name_check :: "bus1_peer \<Rightarrow> char list \<Rightarrow> errno + nat" where
  "bus1_peer_name_check peer nm = name_check_from 0 (peer_names peer) nm"

text \<open>
  The loop of \<^verbatim>\<open>bus1_peer_names_check\<close>; \<open>names\<close> holds the \<^verbatim>\<open>names_len\<close> bytes
  that are left.  The result is \<^verbatim>\<open>n_names\<close> and \<^verbatim>\<open>n_names_old\<close> at the end of the
  loop.
\<close>

function names_check_loop ::
  "bus1_peer \<Rightarrow> char list \<Rightarrow> nat \<Rightarrow> nat \<Rightarrow> errno + nat \<times> nat" where
  "names_check_loop peer names n_names n_names_old =
     (if length names > 0 then
        (let n = strnlen names (length names) in
         if n = 0 \<or> n = length names then Inl EMSGSIZE
         else
           (case bus1_peer_name_check peer (cstr names) of
              Inl e \<Rightarrow> Inl e
            | Inr r \<Rightarrow>
                names_check_loop peer (drop (n + 1) names) (n_names + 1)
                  (if r > 0 then r else n_names_old)))
      else Inr (n_names, n_names_old))"
  by pat_completeness auto
termination
  by (relation "measure (\<lambda>(peer, names, n_names, n_names_old). length names)") auto

declare names_check_loop.simps [simp del]

definition bus1_peer_names_check :: "bus1_peer \<Rightarrow> char list \<Rightarrow> retval" where
  "bus1_peer_names_check peer names =
     (if length names = 0 \<and> peer_names peer \<noteq> [] then Inl EREMCHG
      else
        (case names_check_loop peer names 0 0 of
           Inl e \<Rightarrow> Inl e
         | Inr (n_names, n_names_old) \<Rightarrow>
             if n_names \<noteq> n_names_old then Inl EREMCHG else OK))"

text \<open>
  What the kernel and the other modules answer during a CONNECT: the imported
  parameter block, the capability of the calling file, the uid of its credentials,
  whether the allocations succeed (for the names, by the number of names allocated
  before), the user object pinned for a uid, and whether \<^verbatim>\<open>put_user\<close> succeeds.
\<close>

record connect_env =
  ce_import :: "errno + bus1_cmd_connect"
  ce_capable :: bool
  ce_uid :: nat
  ce_info_alloc_ok :: bool
  ce_pool_create :: retval
  ce_user_acquire :: "nat \<Rightarrow> errno + nat"
  ce_name_alloc_ok :: "nat \<Rightarrow> bool"
  ce_put_user_ok :: bool

text \<open>
  The loop of \<^verbatim>\<open>bus1_peer_connect_new\<close> that allocates the names; \<open>buf\<close> holds the
  \<^verbatim>\<open>remaining\<close> bytes, \<open>names\<close> is the list built so far, new names at its head.
  On an error the list built so far is returned with it, to be freed.
\<close>

function connect_parse_names ::
  "bus1_consts \<Rightarrow> (nat \<Rightarrow> bool) \<Rightarrow> nat \<Rightarrow> char list \<Rightarrow> bus1_peer_name list \<Rightarrow>
   errno \<times> bus1_peer_name list + bus1_peer_name list" where
  "connect_parse_names K alloc_ok peer buf names =
     (if length buf > 0 then
        (let n = strnlen buf (length buf) in
         if n = 0 \<or> n = length buf then Inl (EMSGSIZE, names)
         else
           (case bus1_peer_name_new K (alloc_ok (length names)) (cstr buf) peer of
              Inl e \<Rightarrow> Inl (e, names)
            | Inr peer_name \<Rightarrow>
                connect_parse_names K alloc_ok peer (drop (n + 1) buf) (peer_name # names)))
      else Inr names)"
  by pat_completeness auto
termination
  by (relation "measure (\<lambda>(K, alloc_ok, peer, buf, names). length buf)") auto

declare connect_parse_names.simps [simp del]

text \<open>The loop that links the names into the index; it stops at the first failure.\<close>

fun link_names ::
  "bus1_peer_name list \<Rightarrow> bus1_domain \<Rightarrow> retval \<times> bus1_peer_name list \<times> bus1_domain" where
  "link_names [] domain = (OK, [], domain)"
| "link_names (peer_name # rest) domain =
     (case bus1_peer_name_add peer_name domain of
        (Inl e, peer_name', domain') \<Rightarrow> (Inl e, peer_name' # rest, domain')
      | (Inr _, peer_name', domain') \<Rightarrow>
          (case link_names rest domain' of
             (r, rest', domain'') \<Rightarrow> (r, peer_name' # rest', domain'')))"

text \<open>The loop at \<^verbatim>\<open>error_unlock\<close>, which removes every name of the list again.\<close>

fun unlink_names ::
  "bus1_peer_name list \<Rightarrow> bus1_domain \<Rightarrow> bus1_peer_name list \<times> bus1_domain" where
  "unlink_names [] domain = ([], domain)"
| "unlink_names (peer_name # rest) domain =
     (case bus1_peer_name_remove peer_name domain of (peer_name', domain') \<Rightarrow>
        (case unlink_names rest domain' of
           (rest', domain'') \<Rightarrow> (peer_name' # rest', domain'')))"

text \<open>The calls made from the label \<^verbatim>\<open>error\<close> on.\<close>

definition connect_error_path :: "bus1_peer_name list \<Rightarrow> bus1_peer_info \<Rightarrow> event list" where
  "connect_error_path names info =
     map (\<lambda>peer_name. NameKfree (pn_name peer_name)) names
     @ [UserRelease (info_user info)]
     @ bus1_peer_info_free (Some (info\<lparr>info_user := None\<rparr>))"

definition bus1_peer_connect_new ::
  "bus1_consts \<Rightarrow> connect_env \<Rightarrow> bus1_peer \<Rightarrow> bus1_domain \<Rightarrow> nat \<Rightarrow> bus1_cmd_connect \<Rightarrow>
   retval \<times> bus1_peer \<times> bus1_domain \<times> event list" where
  "bus1_peer_connect_new K env peer domain uid param =
     (if \<not> bus1_active_is_new (peer_active peer) then
        (case peer_info peer of
           None \<Rightarrow> (Inl ESHUTDOWN, peer, domain, [])
         | Some info \<Rightarrow>
             if cp_pool_size param \<noteq> pool_size (info_pool info) then
               (Inl EREMCHG, peer, domain, [])
             else
               (case bus1_peer_names_check peer (cp_names param) of
                  Inl e \<Rightarrow> (Inl e, peer, domain, [])
                | Inr _ \<Rightarrow> (Inl EISCONN, peer, domain, [])))
      else if peer_info peer \<noteq> None then (Inl EISCONN, peer, domain, [])
      else
        (case bus1_peer_info_new K (ce_info_alloc_ok env) (ce_pool_create env)
                (cp_pool_size param) of
           (Inl e, evs) \<Rightarrow> (Inl e, peer, domain, evs)
         | (Inr info0, evs) \<Rightarrow>
             (case ce_user_acquire env uid of
                Inl e \<Rightarrow> (Inl e, peer, domain, evs @ connect_error_path [] info0)
              | Inr user \<Rightarrow>
                  (let info = info0\<lparr>info_user := Some user\<rparr> in
                   case connect_parse_names K (ce_name_alloc_ok env) (peer_id peer)
                          (cp_names param) [] of
                     Inl (e, names) \<Rightarrow>
                       (Inl e, peer, domain, evs @ connect_error_path names info)
                   | Inr names \<Rightarrow>
                       (case link_names names domain of
                          (Inl e, names', domain') \<Rightarrow>
                            (case unlink_names names' domain' of
                               (names'', domain'') \<Rightarrow>
                                 (Inl e, peer, domain'',
                                  evs @ connect_error_path names'' info))
                        | (Inr _, names', domain') \<Rightarrow>
                            (OK,
                             peer\<lparr>peer_names := names',
                                   peer_info := Some info,
                                   peer_active := bus1_active_activate (peer_active peer)\<rparr>,
                             domain'\<lparr>dom_list_peers := peer_id peer # dom_list_peers domain',
                                     dom_n_peers := dom_n_peers domain' + 1\<rparr>,
                             evs))))))"

text \<open>
  \<^verbatim>\<open>bus1_peer_connect_reset\<close>: the return value, the peer and the parameter block
  after the call, and the calls made.
\<close>

definition bus1_peer_connect_reset ::
  "bus1_peer \<Rightarrow> bus1_cmd_connect \<Rightarrow> retval \<times> bus1_peer \<times> bus1_cmd_connect \<times> event list" where
  "bus1_peer_connect_reset peer param =
     (if bus1_active_is_new (peer_active peer) then (Inl ENOTCONN, peer, param, [])
      else if cp_pool_size param \<noteq> 0 \<or> length (cp_names param) > 0 then
        (Inl EINVAL, peer, param, [])
      else
        (case peer_info peer of
           None \<Rightarrow> (Inl ESHUTDOWN, peer, param, [])
         | Some info \<Rightarrow>
             (let param' = param\<lparr>cp_pool_size := pool_size (info_pool info)\<rparr> in
              case bus1_peer_info_reset info of
                (info', kept, evs) \<Rightarrow>
                  (OK, peer\<lparr>peer_info := Some info'\<rparr>, param', evs))))"

definition bus1_peer_connect_query ::
  "bus1_peer \<Rightarrow> bus1_cmd_connect \<Rightarrow> retval \<times> bus1_cmd_connect" where
  "bus1_peer_connect_query peer param =
     (if bus1_active_is_new (peer_active peer) then (Inl ENOTCONN, param)
      else
        (case peer_info peer of
           None \<Rightarrow> (Inl ESHUTDOWN, param)
         | Some info \<Rightarrow>
             (OK, param\<lparr>cp_pool_size := pool_size (info_pool info)\<rparr>)))"

text \<open>
  \<^verbatim>\<open>bus1_peer_ioctl_connect\<close>.  \<open>connect_dispatch\<close> is the part under the write
  lock of the peer.  The result of the ioctl is the return value, the peer and the
  domain after the call, the pool size copied back to user space if one is, and the
  calls made.
\<close>

definition b2n :: "bool \<Rightarrow> nat" where
  "b2n b = (if b then 1 else 0)"

definition connect_dispatch ::
  "bus1_consts \<Rightarrow> connect_env \<Rightarrow> bus1_peer \<Rightarrow> bus1_domain \<Rightarrow> bus1_cmd_connect \<Rightarrow>
   retval \<times> bus1_peer \<times> bus1_domain \<times> bus1_cmd_connect \<times> event list" where
  "connect_dispatch K env peer domain param =
     (if bus1_active_is_deactivated (peer_active peer) then
        (Inl ESHUTDOWN, peer, domain, param, [])
      else if cp_flags param AND (BUS1_CONNECT_FLAG_PEER K OR BUS1_CONNECT_FLAG_MONITOR K) \<noteq> 0
      then
        (case bus1_peer_connect_new K env peer domain (ce_uid env) param of
           (r, peer', domain', evs) \<Rightarrow> (r, peer', domain', param, evs))
      else if cp_flags param AND BUS1_CONNECT_FLAG_RESET K \<noteq> 0 then
        (case bus1_peer_connect_reset peer param of
           (r, peer', param', evs) \<Rightarrow> (r, peer', domain, param', evs))
      else if cp_flags param AND BUS1_CONNECT_FLAG_QUERY K \<noteq> 0 then
        (case bus1_peer_connect_query peer param of
           (r, param') \<Rightarrow> (r, peer, domain, param', []))
      else (Inl EINVAL, peer, domain, param, []))"

definition bus1_peer_ioctl_connect ::
  "bus1_consts \<Rightarrow> connect_env \<Rightarrow> bus1_peer \<Rightarrow> bus1_domain \<Rightarrow>
   retval \<times> bus1_peer \<times> bus1_domain \<times> u64 option \<times> event list" where
  "bus1_peer_ioctl_connect K env peer domain =
     (case ce_import env of
        Inl e \<Rightarrow> (Inl e, peer, domain, None, [])
      | Inr param \<Rightarrow>
          if cp_flags param AND NOT (BUS1_CONNECT_FLAG_PEER K OR BUS1_CONNECT_FLAG_MONITOR K
                OR BUS1_CONNECT_FLAG_QUERY K OR BUS1_CONNECT_FLAG_RESET K) \<noteq> 0
          then (Inl EINVAL, peer, domain, None, [])
          else if b2n (cp_flags param AND BUS1_CONNECT_FLAG_PEER K \<noteq> 0)
                + b2n (cp_flags param AND BUS1_CONNECT_FLAG_MONITOR K \<noteq> 0)
                + b2n (cp_flags param AND BUS1_CONNECT_FLAG_RESET K \<noteq> 0) > 1
          then (Inl EINVAL, peer, domain, None, [])
          else if \<not> ce_capable env then (Inl EPERM, peer, domain, None, [])
          else
            (case connect_dispatch K env peer domain param of
               (Inl e, peer', domain', param', evs) \<Rightarrow> (Inl e, peer', domain', None, evs)
             | (Inr _, peer', domain', param', evs) \<Rightarrow>
                 if cp_flags param' AND BUS1_CONNECT_FLAG_QUERY K \<noteq> 0 then
                   (if ce_put_user_ok env then
                      (OK, peer', domain', Some (cp_pool_size param'), evs)
                    else (Inl EFAULT, peer', domain', None, evs))
                 else (OK, peer', domain', None, evs)))"

section \<open>RESOLVE\<close>

text \<open>
  The parameter block of RESOLVE after \<^verbatim>\<open>bus1_import_dynamic_ioctl\<close>: \<open>rp_name\<close> are
  the bytes that follow the fixed part, so \<^verbatim>\<open>param->size - sizeof(*param)\<close> is their
  number.
\<close>

record bus1_cmd_resolve =
  rp_flags :: u64
  rp_id :: u64
  rp_name :: "char list"

text \<open>
  One walk down the index (the inner \<^verbatim>\<open>while (n)\<close> loop).  The result is whether the
  walk ended on a node (\<^verbatim>\<open>n != NULL\<close>) and the value of \<^verbatim>\<open>param->id\<close>.  \<open>act\<close>
  gives the active reference of each peer.
\<close>

fun resolve_walk ::
  "(nat \<Rightarrow> bus1_active) \<Rightarrow> char list \<Rightarrow> u64 \<Rightarrow> name_index \<Rightarrow> bool \<times> u64" where
  "resolve_walk act nm rid Leaf = (False, rid)"
| "resolve_walk act nm rid (Node l e r) =
     (let v = strcmp nm (ne_name e) in
      if v = 0 then
        (True, if bus1_active_is_active (act (ne_peer e)) then 0 else rid)
      else if v < 0 then resolve_walk act nm rid l
      else resolve_walk act nm rid r)"

text \<open>
  The retry loop around the walk.  The first argument is the index the walk sees;
  \<open>later\<close> lists the indexes that later walks see: \<^verbatim>\<open>read_seqcount_retry\<close> is true
  when a writer was active during the walk, and then there is a next index to walk.
\<close>

fun resolve_loop ::
  "(nat \<Rightarrow> bus1_active) \<Rightarrow> char list \<Rightarrow> u64 \<Rightarrow> name_index \<Rightarrow> name_index list \<Rightarrow> bool \<times> u64"
  where
  "resolve_loop act nm rid t [] = resolve_walk act nm rid t"
| "resolve_loop act nm rid t (t' # later) =
     (case resolve_walk act nm rid t of
        (True, rid') \<Rightarrow> (True, rid')
      | (False, rid') \<Rightarrow> resolve_loop act nm rid' t' later)"

text \<open>
  \<^verbatim>\<open>bus1_peer_ioctl_resolve\<close>.  \<open>imported\<close> is the result of
  \<^verbatim>\<open>bus1_import_dynamic_ioctl\<close>, \<open>put_ok\<close> whether \<^verbatim>\<open>put_user\<close> succeeds.  The
  result is the return value and the id written to user space, if one is written.
\<close>

definition bus1_peer_ioctl_resolve ::
  "bus1_consts \<Rightarrow> (nat \<Rightarrow> bus1_active) \<Rightarrow> name_index \<Rightarrow> name_index list \<Rightarrow>
   errno + bus1_cmd_resolve \<Rightarrow> bool \<Rightarrow> retval \<times> u64 option" where
  "bus1_peer_ioctl_resolve K act t later imported put_ok =
     (case imported of
        Inl e \<Rightarrow> (Inl e, None)
      | Inr param \<Rightarrow>
          if rp_flags param \<noteq> 0 then (Inl EINVAL, None)
          else if rp_id param \<noteq> 0 then (Inl EINVAL, None)
          else
            let namelen = length (rp_name param) in
            if namelen < 2 \<or> namelen > BUS1_NAME_MAX_SIZE K then (Inl ENXIO, None)
            else if rp_name param ! (namelen - 1) \<noteq> NUL then (Inl EINVAL, None)
            else
              (case resolve_loop act (cstr (rp_name param)) (rp_id param) t later of
                 (False, rid) \<Rightarrow> (Inl ENXIO, None)
               | (True, rid) \<Rightarrow>
                   if put_ok then (OK, Some rid) else (Inl EFAULT, None)))"

section \<open>SEND\<close>

record bus1_cmd_send =
  snd_flags :: u64
  snd_ptr_destinations :: u64
  snd_n_destinations :: u64
  snd_ptr_vecs :: u64
  snd_n_vecs :: u64
  snd_ptr_ids :: u64
  snd_ptr_fds :: u64
  snd_n_fds :: u64

text \<open>
  What the kernel and the transaction engine answer during a SEND: the imported
  parameter block; the result of \<^verbatim>\<open>bus1_transaction_new_from_user\<close>, on success
  whether the transaction lives in the buffer on the stack; the memory of the caller,
  where reading an address gives a value or faults; and the results of
  \<^verbatim>\<open>bus1_transaction_commit_for_id\<close> and of the calls of
  \<^verbatim>\<open>bus1_transaction_instantiate_for_id\<close>, by the index of the destination.
\<close>

record send_env =
  se_import :: "errno + bus1_cmd_send"
  se_transaction_new :: "errno + bool"
  se_get_user :: "u64 \<Rightarrow> u64 option"
  se_commit_for_id :: "u64 \<Rightarrow> u64 \<Rightarrow> retval"
  se_instantiate_for_id :: "nat \<Rightarrow> u64 \<Rightarrow> u64 \<Rightarrow> retval"

text \<open>The cast \<^verbatim>\<open>(u64)(unsigned long)x\<close>.\<close>

definition ulong_cast :: "bus1_consts \<Rightarrow> u64 \<Rightarrow> u64" where
  "ulong_cast K x = take_bit (BITS_PER_LONG K) x"

text \<open>
  The loop of the slow path from index \<open>i\<close> on, with \<open>k\<close> destinations to go.
  \<^verbatim>\<open>ptr_dest + i\<close> is the address of the \<open>i\<close>-th 64-bit value.
\<close>

fun send_instantiate_loop ::
  "send_env \<Rightarrow> u64 \<Rightarrow> u64 \<Rightarrow> nat \<Rightarrow> nat \<Rightarrow> retval \<times> event list" where
  "send_instantiate_loop env ptr_dest flags i 0 = (OK, [])"
| "send_instantiate_loop env ptr_dest flags i (Suc k) =
     (case se_get_user env (ptr_dest + 8 * of_nat i) of
        None \<Rightarrow> (Inl EFAULT, [])
      | Some destination \<Rightarrow>
          (case se_instantiate_for_id env i destination flags of
             Inl e \<Rightarrow> (Inl e, [TransactionInstantiate destination flags])
           | Inr _ \<Rightarrow>
               (case send_instantiate_loop env ptr_dest flags (Suc i) k of
                  (r, evs) \<Rightarrow> (r, TransactionInstantiate destination flags # evs))))"

text \<open>
  \<^verbatim>\<open>bus1_peer_ioctl_send\<close>: the return value and the calls made on the transaction.
  The last argument of \<^verbatim>\<open>bus1_transaction_free\<close> is whether the object is to be
  freed, which it is not when it lives in the buffer on the stack.
\<close>

definition bus1_peer_ioctl_send :: "bus1_consts \<Rightarrow> send_env \<Rightarrow> retval \<times> event list" where
  "bus1_peer_ioctl_send K env =
     (case se_import env of
        Inl e \<Rightarrow> (Inl e, [])
      | Inr param \<Rightarrow>
          if snd_flags param AND NOT (BUS1_SEND_FLAG_IGNORE_UNKNOWN K
                OR BUS1_SEND_FLAG_CONVEY_ERRORS K) \<noteq> 0
          then (Inl EINVAL, [])
          else if snd_n_vecs param > BUS1_VEC_MAX K \<or> snd_n_fds param > BUS1_FD_MAX K
          then (Inl EMSGSIZE, [])
          else if snd_ptr_destinations param \<noteq> ulong_cast K (snd_ptr_destinations param)
                \<or> snd_ptr_vecs param \<noteq> ulong_cast K (snd_ptr_vecs param)
                \<or> snd_ptr_ids param \<noteq> ulong_cast K (snd_ptr_ids param)
                \<or> snd_ptr_fds param \<noteq> ulong_cast K (snd_ptr_fds param)
          then (Inl EFAULT, [])
          else
            (case se_transaction_new env of
               Inl e \<Rightarrow> (Inl e, [])
             | Inr in_buf \<Rightarrow>
                 (let ptr_dest = ulong_cast K (snd_ptr_destinations param) in
                  case
                    (if snd_n_destinations param = 1 then
                       (case se_get_user env ptr_dest of
                          None \<Rightarrow> (Inl EFAULT, [])
                        | Some destination \<Rightarrow>
                            (se_commit_for_id env destination (snd_flags param),
                             [TransactionCommitForId destination (snd_flags param)]))
                     else
                       (case send_instantiate_loop env ptr_dest (snd_flags param) 0
                               (unat (snd_n_destinations param)) of
                          (Inl e, evs) \<Rightarrow> (Inl e, evs)
                        | (Inr _, evs) \<Rightarrow> (OK, evs @ [TransactionCommit])))
                  of (r, evs) \<Rightarrow> (r, evs @ [TransactionFree (\<not> in_buf)]))))"

section \<open>RECV\<close>

record bus1_cmd_recv =
  rcv_flags :: u64
  rcv_msg_offset :: u64
  rcv_msg_size :: u64
  rcv_msg_ids :: u64
  rcv_msg_fds :: u64

text \<open>\<^verbatim>\<open>message->n_files\<close> is the length of the array \<^verbatim>\<open>message->files\<close>.\<close>

definition msg_n_files :: "bus1_message \<Rightarrow> nat" where
  "msg_n_files m = length (msg_files m)"

text \<open>
  An \<^verbatim>\<open>int\<close> return value that is not only 0 or an error: \<open>Inr n\<close> is the
  non-negative \<open>n\<close>, \<open>Inl e\<close> is \<^verbatim>\<open>-e\<close>.  RECV hands on what
  \<^verbatim>\<open>bus1_pool_write_kvec\<close> returned, which is tested with \<^verbatim>\<open>r >= 0\<close> only.
\<close>

type_synonym retcount = "errno + nat"

text \<open>
  What the kernel and the other modules answer during a RECV: the imported parameter
  block; the first entry of a queue (\<^verbatim>\<open>bus1_queue_peek\<close> and
  \<^verbatim>\<open>bus1_queue_peek_rcu\<close>) and the queue without an entry (\<^verbatim>\<open>bus1_queue_remove\<close>);
  whether \<^verbatim>\<open>krealloc\<close> succeeds for a number of descriptors; the result of
  \<^verbatim>\<open>get_unused_fd_flags\<close>, by the number of descriptors reserved before; the result
  of \<^verbatim>\<open>bus1_pool_write_kvec\<close> for the descriptors written, an error or a
  non-negative number; and whether the four \<^verbatim>\<open>put_user\<close> succeed.
\<close>

record recv_env =
  re_import :: "errno + bus1_cmd_recv"
  re_queue_peek :: "bus1_queue \<Rightarrow> bus1_message option"
  re_queue_remove :: "bus1_queue \<Rightarrow> bus1_message \<Rightarrow> bus1_queue"
  re_krealloc_ok :: "nat \<Rightarrow> bool"
  re_get_unused_fd :: "nat \<Rightarrow> errno + int"
  re_pool_write_kvec :: "int list \<Rightarrow> retcount"
  re_put_user_ok :: bool

text \<open>
  Modelled from the spec: \<^verbatim>\<open>bus1_pool_publish\<close> is a function of \<^verbatim>\<open>pool.c\<close>; it
  publishes a slice to user space and returns its offset and size through the two
  out parameters.
\<close>

definition bus1_pool_publish :: "bus1_pool_slice \<Rightarrow> bus1_cmd_recv \<Rightarrow> bus1_cmd_recv" where
  "bus1_pool_publish sl param =
     param\<lparr>rcv_msg_offset := slice_offset sl, rcv_msg_size := slice_size sl\<rparr>"

text \<open>
  The loop that reserves descriptors, with \<open>k\<close> descriptors to go.  On a failure the
  descriptors reserved so far come with the error, to be released.
\<close>

fun reserve_fds ::
  "(nat \<Rightarrow> errno + int) \<Rightarrow> nat \<Rightarrow> int list \<Rightarrow> errno \<times> int list + int list" where
  "reserve_fds get 0 fds = Inr fds"
| "reserve_fds get (Suc k) fds =
     (case get (length fds) of
        Inl e \<Rightarrow> Inl (e, fds)
      | Inr fd \<Rightarrow> reserve_fds get k (fds @ [fd]))"

text \<open>
  The \<^verbatim>\<open>do ... while (wanted_fds > n_fds)\<close> loop of the dequeue; \<open>fds\<close> holds the
  \<^verbatim>\<open>n_fds\<close> descriptors reserved.  The result is an error with which the function
  leaves through \<^verbatim>\<open>exit\<close>, or the message dequeued if there is one, the queue, and
  in both cases the descriptors reserved and the calls made.  After the
  reservation \<^verbatim>\<open>n_fds\<close> is at least \<^verbatim>\<open>wanted_fds\<close>, so the loop goes round again only
  from the branch that raises \<^verbatim>\<open>wanted_fds\<close>.
\<close>

function recv_dequeue_loop ::
  "recv_env \<Rightarrow> bus1_queue \<Rightarrow> nat \<Rightarrow> int list \<Rightarrow>
   errno \<times> int list \<times> event list + bus1_message option \<times> bus1_queue \<times> int list \<times> event list"
  where
  "recv_dequeue_loop env q wanted_fds fds =
     (case
        (if wanted_fds > length fds then
           (if \<not> re_krealloc_ok env wanted_fds then Inl (ENOMEM, fds)
            else reserve_fds (re_get_unused_fd env) (wanted_fds - length fds) fds)
         else Inr fds)
      of
        Inl (e, fds') \<Rightarrow> Inl (e, fds', [])
      | Inr fds' \<Rightarrow>
          (case re_queue_peek env q of
             None \<Rightarrow> Inr (None, q, fds', [InfoLock, InfoUnlock])
           | Some message \<Rightarrow>
               if msg_n_files message > length fds' then
                 (case recv_dequeue_loop env q (msg_n_files message) fds' of
                    Inl (e, fds'', evs) \<Rightarrow> Inl (e, fds'', [InfoLock, InfoUnlock] @ evs)
                  | Inr (node, q', fds'', evs) \<Rightarrow>
                      Inr (node, q', fds'', [InfoLock, InfoUnlock] @ evs))
               else
                 Inr (Some message, re_queue_remove env q message, fds',
                      [InfoLock, PoolPublish (msg_slice message)]
                      @ (if msg_n_files message = 0 then [MessageDeallocate (msg_id message)]
                         else [])
                      @ [InfoUnlock])))"
  by pat_completeness auto
termination
proof (relation "measure (\<lambda>(env, q, wanted_fds, fds).
          (case re_queue_peek env q of None \<Rightarrow> 0 | Some m \<Rightarrow> msg_n_files m)
          - max (length fds) wanted_fds)", goal_cases)
  case 1
  show ?case by simp
next
  case (2 env q wanted_fds fds fds' message)
  have len: "length fds' = length fds + k" if "reserve_fds g k fds = Inr fds'"
    for g k and fds fds' :: "int list"
    using that by (induction k arbitrary: fds) (auto split: sum.splits)
  have "max (length fds) wanted_fds \<le> length fds'"
    using 2(1) len [of "re_get_unused_fd env" "wanted_fds - length fds" fds fds']
    by (auto split: if_splits)
  with 2 show ?case by simp
qed

declare recv_dequeue_loop.simps [simp del]

text \<open>
  The label \<^verbatim>\<open>exit\<close>: with \<^verbatim>\<open>r >= 0\<close> the four fields are copied to user space
  and \<open>r\<close> is returned as it is unless a copy faults; the descriptors still reserved
  are released, last first.
\<close>

definition recv_exit ::
  "recv_env \<Rightarrow> retcount \<Rightarrow> bus1_peer_info \<Rightarrow> bus1_cmd_recv \<Rightarrow> int list \<Rightarrow> event list \<Rightarrow>
   retcount \<times> bus1_peer_info \<times> bus1_cmd_recv option \<times> event list" where
  "recv_exit env r info param fds evs =
     (let evs' = evs @ map PutUnusedFd (rev fds) in
      case r of
        Inl e \<Rightarrow> (Inl e, info, None, evs')
      | Inr n \<Rightarrow>
          if re_put_user_ok env then (Inr n, info, Some param, evs')
          else (Inl EFAULT, info, None, evs'))"

text \<open>
  \<^verbatim>\<open>bus1_peer_ioctl_recv\<close>: the return value, the peer info after the call, the
  parameter block copied back to user space if it is, and the calls made.  \<open>r\<close> is 0
  on the path of PEEK and for a message without files; for a message with files it
  is the result of \<^verbatim>\<open>bus1_pool_write_kvec\<close>.
\<close>

definition bus1_peer_ioctl_recv ::
  "bus1_consts \<Rightarrow> recv_env \<Rightarrow> bus1_peer_info \<Rightarrow>
   retcount \<times> bus1_peer_info \<times> bus1_cmd_recv option \<times> event list" where
  "bus1_peer_ioctl_recv K env info =
     (case re_import env of
        Inl e \<Rightarrow> (Inl e, info, None, [])
      | Inr param \<Rightarrow>
          if rcv_flags param AND NOT (BUS1_RECV_FLAG_PEEK K) \<noteq> 0 then
            (Inl EINVAL, info, None, [])
          else if rcv_msg_offset param \<noteq> BUS1_OFFSET_INVALID K \<or> rcv_msg_size param \<noteq> 0
                \<or> rcv_msg_ids param \<noteq> 0 \<or> rcv_msg_fds param \<noteq> 0 then
            (Inl EINVAL, info, None, [])
          else
            (case re_queue_peek env (info_queue info) of
               None \<Rightarrow> (Inl EAGAIN, info, None, [])
             | Some first \<Rightarrow>
                 if rcv_flags param AND BUS1_RECV_FLAG_PEEK K \<noteq> 0 then
                   (case re_queue_peek env (info_queue info) of
                      None \<Rightarrow> (Inl EAGAIN, info, None, [InfoLock, InfoUnlock])
                    | Some message \<Rightarrow>
                        recv_exit env (Inr 0) info
                          ((bus1_pool_publish (msg_slice message) param)
                             \<lparr>rcv_msg_fds := of_nat (msg_n_files message)\<rparr>)
                          []
                          [InfoLock, PoolPublish (msg_slice message), InfoUnlock])
                 else
                   (case recv_dequeue_loop env (info_queue info) (msg_n_files first) [] of
                      Inl (e, fds, evs) \<Rightarrow> recv_exit env (Inl e) info param fds evs
                    | Inr (None, q, fds, evs) \<Rightarrow>
                        recv_exit env (Inl EAGAIN) (info\<lparr>info_queue := q\<rparr>) param fds evs
                    | Inr (Some message, q, fds, evs) \<Rightarrow>
                        (let param' = (bus1_pool_publish (msg_slice message) param)
                                        \<lparr>rcv_msg_fds := of_nat (msg_n_files message)\<rparr>;
                             info' = info\<lparr>info_queue := q\<rparr>;
                             fds' = take (msg_n_files message) fds;
                             evs' = evs @ map PutUnusedFd
                                            (rev (drop (msg_n_files message) fds))
                         in
                         if length fds' > 0 then
                           (case re_pool_write_kvec env fds' of
                              Inl e \<Rightarrow>
                                recv_exit env (Inl e) info' param' fds'
                                  (evs' @ [PoolWriteKvec fds', InfoLock,
                                           MessageDeallocate (msg_id message), InfoUnlock,
                                           MessageFree (msg_id message)])
                            | Inr n \<Rightarrow>
                                recv_exit env (Inr n) info' param' []
                                  (evs' @ [PoolWriteKvec fds', InfoLock,
                                           MessageDeallocate (msg_id message), InfoUnlock]
                                   @ map (\<lambda>i. FdInstall (fds' ! i) (msg_files message ! i))
                                       (rev [0..<length fds'])
                                   @ [MessageFree (msg_id message)]))
                         else
                           recv_exit env (Inr 0) info' param' fds'
                             (evs' @ [MessageFree (msg_id message)])))))"

section \<open>Predicates on the calls made\<close>

text \<open>A commit of the transaction, on either path of SEND.\<close>

definition is_commit :: "event \<Rightarrow> bool" where
  "is_commit ev =
     (case ev of TransactionCommit \<Rightarrow> True | TransactionCommitForId _ _ \<Rightarrow> True | _ \<Rightarrow> False)"

definition is_fd_install :: "event \<Rightarrow> bool" where
  "is_fd_install ev = (case ev of FdInstall _ _ \<Rightarrow> True | _ \<Rightarrow> False)"

section \<open>Example states\<close>

text \<open>
  A connected peer with the names \<open>a\<close> and \<open>b\<close>, a pool of 4096 bytes and a queue
  that holds a committed message with two files and a staged one; the domain that
  holds the peer; and environments in which every call into the kernel succeeds.
\<close>

definition msg_example :: bus1_message where
  "msg_example =
     \<lparr>msg_id = 7, msg_is_message = True, msg_committed = True, msg_linked = True,
      msg_slice = \<lparr>slice_offset = 128, slice_size = 64\<rparr>, msg_files = [11, 12]\<rparr>"

definition msg_staged_example :: bus1_message where
  "msg_staged_example =
     \<lparr>msg_id = 8, msg_is_message = True, msg_committed = False, msg_linked = True,
      msg_slice = \<lparr>slice_offset = 256, slice_size = 32\<rparr>, msg_files = []\<rparr>"

definition info_example :: bus1_peer_info where
  "info_example =
     \<lparr>info_user = Some 1000, info_pool = \<lparr>pool_size = 4096\<rparr>,
      info_queue = \<lparr>q_messages = Node Leaf msg_example (Node Leaf msg_staged_example Leaf)\<rparr>\<rparr>"

definition info_empty_example :: bus1_peer_info where
  "info_empty_example =
     \<lparr>info_user = Some 1000, info_pool = \<lparr>pool_size = 4096\<rparr>,
      info_queue = \<lparr>q_messages = Leaf\<rparr>\<rparr>"

definition peer_example :: bus1_peer where
  "peer_example =
     \<lparr>peer_id = 1, peer_active = ACTIVE, peer_info = Some info_example,
      peer_names = [\<lparr>pn_name = ''b'', pn_peer = 1, pn_linked = True\<rparr>,
                    \<lparr>pn_name = ''a'', pn_peer = 1, pn_linked = True\<rparr>]\<rparr>"

definition domain_example :: bus1_domain where
  "domain_example =
     \<lparr>dom_map_names =
        Node (Node Leaf \<lparr>ne_name = ''a'', ne_peer = 1\<rparr> Leaf)
          \<lparr>ne_name = ''b'', ne_peer = 1\<rparr> Leaf,
      dom_n_names = 2, dom_list_peers = [1], dom_n_peers = 1\<rparr>"

definition connect_env_example :: "bool \<Rightarrow> bus1_cmd_connect \<Rightarrow> connect_env" where
  "connect_env_example capable param =
     \<lparr>ce_import = Inr param, ce_capable = capable, ce_uid = 1000, ce_info_alloc_ok = True,
      ce_pool_create = OK, ce_user_acquire = (\<lambda>uid. Inr uid),
      ce_name_alloc_ok = (\<lambda>n. True), ce_put_user_ok = True\<rparr>"

text \<open>
  A queue whose first entry is the first node of its index in order, and a queue
  without one of its entries: the entries that are left, in order.  The write to the
  pool answers with four times the number of descriptors, a result that is not 0.
\<close>

definition queue_first :: "bus1_queue \<Rightarrow> bus1_message option" where
  "queue_first q = (case inorder (q_messages q) of [] \<Rightarrow> None | m # _ \<Rightarrow> Some m)"

definition queue_without :: "bus1_queue \<Rightarrow> bus1_message \<Rightarrow> bus1_queue" where
  "queue_without q m =
     q\<lparr>q_messages := foldr (\<lambda>x t. Node Leaf x t) (remove1 m (inorder (q_messages q))) Leaf\<rparr>"

definition recv_env_example :: "bus1_cmd_recv \<Rightarrow> recv_env" where
  "recv_env_example param =
     \<lparr>re_import = Inr param, re_queue_peek = queue_first,
      re_queue_remove = queue_without,
      re_krealloc_ok = (\<lambda>n. True), re_get_unused_fd = (\<lambda>n. Inr (3 + int n)),
      re_pool_write_kvec = (\<lambda>fds. Inr (4 * length fds)), re_put_user_ok = True\<rparr>"

definition recv_param_peek :: bus1_cmd_recv where
  "recv_param_peek =
     \<lparr>rcv_flags = 1, rcv_msg_offset = - 1, rcv_msg_size = 0, rcv_msg_ids = 0,
      rcv_msg_fds = 0\<rparr>"

definition recv_param_dequeue :: bus1_cmd_recv where
  "recv_param_dequeue =
     \<lparr>rcv_flags = 0, rcv_msg_offset = - 1, rcv_msg_size = 0, rcv_msg_ids = 0,
      rcv_msg_fds = 0\<rparr>"

definition recv_param_uncleared :: bus1_cmd_recv where
  "recv_param_uncleared =
     \<lparr>rcv_flags = 0, rcv_msg_offset = - 1, rcv_msg_size = 0, rcv_msg_ids = 0,
      rcv_msg_fds = 2\<rparr>"

text \<open>
  A SEND to three destinations whose ids lie at the address 4096; the memory of the
  caller holds the first two and faults on the third.  A SEND to one destination
  whose id cannot be read.
\<close>

definition send_param_example :: "u64 \<Rightarrow> bus1_cmd_send" where
  "send_param_example n =
     \<lparr>snd_flags = 1, snd_ptr_destinations = 4096, snd_n_destinations = n,
      snd_ptr_vecs = 0, snd_n_vecs = 0, snd_ptr_ids = 0, snd_ptr_fds = 0, snd_n_fds = 0\<rparr>"

definition send_env_example :: "u64 \<Rightarrow> (u64 \<Rightarrow> u64 option) \<Rightarrow> send_env" where
  "send_env_example n mem =
     \<lparr>se_import = Inr (send_param_example n), se_transaction_new = Inr True,
      se_get_user = mem, se_commit_for_id = (\<lambda>d f. OK),
      se_instantiate_for_id = (\<lambda>i d f. OK)\<rparr>"

definition user_mem_example :: "u64 \<Rightarrow> u64 option" where
  "user_mem_example a = (if a = 4096 then Some 21 else if a = 4104 then Some 22 else None)"

text \<open>
  A peer on which no teardown has anything left to do: its reference is DEAD, or it
  is NEW and a NEW reference is not deactivated.
\<close>

definition teardown_settled :: "bool \<Rightarrow> bus1_peer \<Rightarrow> bool" where
  "teardown_settled new_too peer =
     (peer_active peer = DEAD \<or> (\<not> new_too \<and> peer_active peer = NEW))"

text \<open>What a call of a teardown yields when it does nothing.\<close>

definition teardown_noop :: "teardown_call \<Rightarrow> retval option \<times> event list" where
  "teardown_noop c = (case c of Teardown \<Rightarrow> (Some (Inl ESHUTDOWN), []) | TeardownDomain \<Rightarrow> (None, []))"

text \<open>
  The domain deactivates and drains a peer before it calls the domain-assisted
  teardown on it: a sequence of calls that starts with this teardown starts on a
  deactivated peer.
\<close>

definition teardown_calls_ok :: "teardown_call list \<Rightarrow> bus1_peer \<Rightarrow> bool" where
  "teardown_calls_ok cs peer =
     (case cs of
        TeardownDomain # _ \<Rightarrow> bus1_active_is_deactivated (peer_active peer)
      | _ \<Rightarrow> True)"

definition peer_deactivating_example :: bus1_peer where
  "peer_deactivating_example = peer_example\<lparr>peer_active := DEACTIVATING\<rparr>"

text \<open>The example peer after a DISCONNECT: its reference is DEAD and its info is gone.\<close>

definition peer_disconnected_example :: bus1_peer where
  "peer_disconnected_example =
     peer_example\<lparr>peer_active := DEAD, peer_info := None, peer_names := []\<rparr>"

text \<open>
  What the \<^verbatim>\<open>WARN_ON\<close> of \<^verbatim>\<open>bus1_peer_connect_reset\<close> and of
  \<^verbatim>\<open>bus1_peer_connect_query\<close> asserts: a peer whose reference is active has its info.
\<close>

definition peer_info_invariant :: "bus1_peer \<Rightarrow> bool" where
  "peer_info_invariant peer = (peer_active peer = ACTIVE \<longrightarrow> peer_info peer \<noteq> None)"

text \<open>
  The empty domain, the peer as a CONNECT with the names \<open>a\<close> and \<open>b\<close> and a pool
  of 4096 bytes leaves it, and two parameter blocks for the flag PEER: one with the
  names \<open>a\<close> and \<open>b\<close>, one with the name \<open>a\<close> twice.
\<close>

definition domain_empty :: bus1_domain where
  "domain_empty =
     \<lparr>dom_map_names = Leaf, dom_n_names = 0, dom_list_peers = [], dom_n_peers = 0\<rparr>"

definition peer_connected_example :: bus1_peer where
  "peer_connected_example = peer_example\<lparr>peer_info := Some info_empty_example\<rparr>"

definition connect_param_ab :: bus1_cmd_connect where
  "connect_param_ab =
     \<lparr>cp_flags = 1, cp_pool_size = 4096, cp_names = ''a'' @ [NUL] @ ''b'' @ [NUL]\<rparr>"

definition connect_param_aa :: bus1_cmd_connect where
  "connect_param_aa =
     \<lparr>cp_flags = 1, cp_pool_size = 4096, cp_names = ''a'' @ [NUL] @ ''a'' @ [NUL]\<rparr>"

text \<open>The names of a list of peer names that are linked into the index.\<close>

definition linked_names :: "bus1_peer_name list \<Rightarrow> char list set" where
  "linked_names cs = pn_name ` {c \<in> set cs. pn_linked c}"

text \<open>
  A CONNECT of a second peer with the names \<open>a\<close> and \<open>c\<close>: the name \<open>c\<close> is linked
  first and \<open>a\<close> then collides with the name of the first peer.
\<close>

definition connect_param_ac :: bus1_cmd_connect where
  "connect_param_ac =
     \<lparr>cp_flags = 1, cp_pool_size = 4096, cp_names = ''a'' @ [NUL] @ ''c'' @ [NUL]\<rparr>"

text \<open>
  The buffer that holds a list of names, each followed by its terminator, as a
  caller passes them to CONNECT.
\<close>

definition nulstr :: "char list list \<Rightarrow> char list" where
  "nulstr ns = concat (map (\<lambda>n. n @ [NUL]) ns)"

section \<open>Properties of C strings and of the name index\<close>

text \<open>
  The sign of \<^verbatim>\<open>strcmp\<close> is the lexicographic order of the bytes, so the index is
  a search tree for a linear order.
\<close>

lemma strcmp_sign:
  "(strcmp a b < 0 \<longleftrightarrow> a < b) \<and> (strcmp a b = 0 \<longleftrightarrow> a = b) \<and> (0 < strcmp a b \<longleftrightarrow> b < a)"
  by (induction a b rule: strcmp.induct) (auto simp: less_char_def not_less order_le_less)

lemma strcmp_less [simp]: "strcmp a b < 0 \<longleftrightarrow> a < b"
  and strcmp_eq [simp]: "strcmp a b = 0 \<longleftrightarrow> a = b"
  using strcmp_sign [of a b] by simp_all

lemma index_ordered_Leaf [simp]: "index_ordered Leaf"
  by (simp add: index_ordered_def)

lemma index_ordered_Node:
  "index_ordered (Node l x r) \<longleftrightarrow>
     index_ordered l \<and> index_ordered r
     \<and> (\<forall>a \<in> set_tree l. ne_name a < ne_name x)
     \<and> (\<forall>b \<in> set_tree r. ne_name x < ne_name b)"
  by (fastforce simp: index_ordered_def sorted_wrt_append)

lemma index_names_Node [simp]:
  "index_names (Node l x r) = insert (ne_name x) (index_names l \<union> index_names r)"
  by (auto simp: index_names_def)

lemma index_names_Leaf [simp]: "index_names Leaf = {}"
  by (simp add: index_names_def)

lemma name_index_insert_Inl:
  "name_index_insert e t = Inl err \<Longrightarrow> err = EISNAM \<and> ne_name e \<in> index_names t"
  by (induction t arbitrary: err) (auto simp: Let_def split: if_splits sum.splits)

lemma name_index_insert_Inr:
  assumes "index_ordered t" and "name_index_insert e t = Inr t'"
  shows "ne_name e \<notin> index_names t \<and> index_ordered t'
       \<and> set_tree t' = insert e (set_tree t)
       \<and> filter (\<lambda>x. ne_name x \<noteq> ne_name e) (inorder t') = inorder t"
  using assms
proof (induction t arbitrary: t')
  case Leaf
  then show ?case by (auto simp: index_ordered_Node)
next
  case (Node l x r)
  from Node.prems(1) have ord: "index_ordered l" "index_ordered r"
    "\<forall>a \<in> set_tree l. ne_name a < ne_name x" "\<forall>b \<in> set_tree r. ne_name x < ne_name b"
    by (simp_all add: index_ordered_Node)
  consider (lt) "ne_name e < ne_name x" | (gt) "ne_name x < ne_name e"
    using Node.prems(2)
    by (cases "ne_name e" "ne_name x" rule: linorder_cases) (auto simp: Let_def)
  then show ?case
  proof cases
    case lt
    then have "ne_name e \<noteq> ne_name x" by simp
    with lt obtain l' where l': "name_index_insert e l = Inr l'" "t' = Node l' x r"
      using Node.prems(2) by (auto simp: Let_def split: sum.splits)
    note ih = Node.IH(1) [OF ord(1) l'(1)]
    have keep_r: "filter (\<lambda>y. ne_name y \<noteq> ne_name e) (inorder r) = inorder r"
      using ord(4) lt by (auto simp: filter_id_conv)
    have notin_r: "ne_name e \<notin> index_names r"
      using ord(4) lt by (auto simp: index_names_def)
    show ?thesis
      using ih ord lt keep_r notin_r l'(2)
      by (auto simp: index_ordered_Node)
  next
    case gt
    then have "ne_name e \<noteq> ne_name x" "\<not> ne_name e < ne_name x" by simp_all
    then obtain r' where r': "name_index_insert e r = Inr r'" "t' = Node l x r'"
      using Node.prems(2) by (auto simp: Let_def split: sum.splits)
    note ih = Node.IH(2) [OF ord(2) r'(1)]
    have keep_l: "filter (\<lambda>y. ne_name y \<noteq> ne_name e) (inorder l) = inorder l"
      using ord(3) gt by (auto simp: filter_id_conv)
    have notin_l: "ne_name e \<notin> index_names l"
      using ord(3) gt by (auto simp: index_names_def)
    show ?thesis
      using ih ord gt keep_l notin_l r'(2)
      by (auto simp: index_ordered_Node)
  qed
qed

lemma name_index_insert_present:
  assumes "index_ordered t" and "ne_name e \<in> index_names t"
  shows "name_index_insert e t = Inl EISNAM"
proof (cases "name_index_insert e t")
  case (Inl err)
  then show ?thesis using name_index_insert_Inl by blast
next
  case (Inr t')
  then show ?thesis using name_index_insert_Inr [OF assms(1) Inr] assms(2) by simp
qed

lemma split_min_inorder:
  "split_min l a r = (m, t') \<Longrightarrow> m # inorder t' = inorder l @ a # inorder r"
  by (induction l a r arbitrary: m t' rule: split_min.induct) (auto split: prod.splits)

lemma rb_erase_inorder:
  "index_ordered t \<Longrightarrow> inorder (rb_erase nm t) = filter (\<lambda>x. ne_name x \<noteq> nm) (inorder t)"
proof (induction t)
  case Leaf
  then show ?case by simp
next
  case (Node l x r)
  from Node.prems have ord: "index_ordered l" "index_ordered r"
    "\<forall>a \<in> set_tree l. ne_name a < ne_name x" "\<forall>b \<in> set_tree r. ne_name x < ne_name b"
    by (simp_all add: index_ordered_Node)
  consider (eq) "nm = ne_name x" | (lt) "nm < ne_name x" | (gt) "ne_name x < nm"
    by (cases nm "ne_name x" rule: linorder_cases) auto
  then show ?case
  proof cases
    case eq
    have keep_l: "filter (\<lambda>y. ne_name y \<noteq> nm) (inorder l) = inorder l"
      using ord(3) eq by (auto simp: filter_id_conv)
    have keep_r: "filter (\<lambda>y. ne_name y \<noteq> nm) (inorder r) = inorder r"
      using ord(4) eq by (auto simp: filter_id_conv)
    show ?thesis
    proof (cases r)
      case Leaf
      then show ?thesis using eq keep_l by simp
    next
      case (Node rl b rr)
      obtain m r' where sm: "split_min rl b rr = (m, r')"
        by (cases "split_min rl b rr") auto
      from split_min_inorder [OF sm] have "m # inorder r' = inorder r"
        using Node by simp
      then show ?thesis
        using eq keep_l keep_r Node sm by simp
    qed
  next
    case lt
    have keep_r: "filter (\<lambda>y. ne_name y \<noteq> nm) (inorder r) = inorder r"
      using ord(4) lt by (auto simp: filter_id_conv)
    from lt have "nm \<noteq> ne_name x" by simp
    then show ?thesis
      using lt Node.IH(1) [OF ord(1)] keep_r by (simp add: Let_def)
  next
    case gt
    have keep_l: "filter (\<lambda>y. ne_name y \<noteq> nm) (inorder l) = inorder l"
      using ord(3) gt by (auto simp: filter_id_conv)
    from gt have "nm \<noteq> ne_name x" "\<not> nm < ne_name x" by simp_all
    then show ?thesis
      using gt Node.IH(2) [OF ord(2)] keep_l by (simp add: Let_def)
  qed
qed

lemma rb_erase_ordered:
  "index_ordered t \<Longrightarrow> index_ordered (rb_erase nm t)"
  by (simp add: index_ordered_def rb_erase_inorder sorted_wrt_map sorted_wrt_filter)

lemma cstr_name:
  assumes "NUL \<notin> set n"
  shows "cstr (n @ NUL # rest) = n"
  using assms by (induction n) (auto simp: cstr_def)

lemma nulstr_Cons: "nulstr (n # ns) = n @ NUL # nulstr ns"
  by (simp add: nulstr_def)

lemma nulstr_Nil [simp]: "nulstr [] = []"
  by (simp add: nulstr_def)

lemma strnlen_name:
  assumes "NUL \<notin> set n"
  shows "strnlen (n @ NUL # rest) (length (n @ NUL # rest)) = length n"
  using assms by (simp add: strnlen_def cstr_name)

section \<open>Properties of RESOLVE\<close>

text \<open>
  A walk of an ordered index ends on the node of a name that is in the index, whatever
  the state of the owner of the name; the state decides only whether the id is
  assigned.  So a RESOLVE of a name that is in the index succeeds.
\<close>

lemma resolve_walk_present:
  assumes "index_ordered t" and "e \<in> set_tree t"
  shows "resolve_walk act (ne_name e) rid t =
           (True, if bus1_active_is_active (act (ne_peer e)) then 0 else rid)"
  using assms
proof (induction t)
  case Leaf
  then show ?case by simp
next
  case (Node l x r)
  from Node.prems(1) have ord: "index_ordered l" "index_ordered r"
    "\<forall>a \<in> set_tree l. ne_name a < ne_name x" "\<forall>b \<in> set_tree r. ne_name x < ne_name b"
    by (simp_all add: index_ordered_Node)
  consider (here) "e = x" | (left) "e \<in> set_tree l" | (right) "e \<in> set_tree r"
    using Node.prems(2) by auto
  then show ?case
  proof cases
    case here
    then show ?thesis by simp
  next
    case left
    then have "ne_name e < ne_name x" using ord(3) by simp
    then have "ne_name e \<noteq> ne_name x" by simp
    then show ?thesis
      using \<open>ne_name e < ne_name x\<close> Node.IH(1) [OF ord(1) left] by (simp add: Let_def)
  next
    case right
    then have gt: "ne_name x < ne_name e" using ord(4) by simp
    then have "ne_name e \<noteq> ne_name x" "\<not> ne_name e < ne_name x" by simp_all
    then show ?thesis
      using Node.IH(2) [OF ord(2) right] by (simp add: Let_def)
  qed
qed

lemma resolve_loop_present:
  assumes "index_ordered t" and "e \<in> set_tree t"
  shows "resolve_loop act (ne_name e) rid t later =
           (True, if bus1_active_is_active (act (ne_peer e)) then 0 else rid)"
  using resolve_walk_present [OF assms, of act rid] by (cases later) simp_all

lemma resolve_present_succeeds:
  assumes "index_ordered t" and "e \<in> set_tree t"
    and "rp_flags param = 0" and "rp_id param = 0"
    and "2 \<le> length (rp_name param)" and "length (rp_name param) \<le> BUS1_NAME_MAX_SIZE K"
    and "rp_name param = ne_name e @ [NUL]" and "NUL \<notin> set (ne_name e)"
  shows "bus1_peer_ioctl_resolve K act t later (Inr param) True = (OK, Some 0)"
proof -
  have "cstr (rp_name param) = ne_name e"
    using cstr_name [OF assms(8), of "[]"] assms(7) by simp
  moreover have "rp_name param ! (length (rp_name param) - 1) = NUL"
    by (simp add: assms(7))
  moreover have "\<not> (length (rp_name param) < 2 \<or> length (rp_name param) > BUS1_NAME_MAX_SIZE K)"
    using assms(5,6) by simp
  ultimately show ?thesis
    using assms(3,4) resolve_loop_present [OF assms(1,2), of act 0 later]
    by (simp add: bus1_peer_ioctl_resolve_def Let_def)
qed

text \<open>
  C2.  The claim is that RESOLVE of a name that is in the index and whose owner is
  DEACTIVATING or DEAD returns NotFound.  The code does not: the walk stops on the
  node of the name, so \<^verbatim>\<open>n\<close> is not null, and the call returns 0 and writes the id
  the caller had cleared.  Here the index holds the one name \<open>x\<close>, owned by peer 1,
  which is DEACTIVATING.
\<close>

theorem resolve_deactivated_owner_succeeds:
  "bus1_peer_ioctl_resolve uapi (\<lambda>p. DEACTIVATING)
     (Node Leaf \<lparr>ne_name = ''x'', ne_peer = 1\<rparr> Leaf) []
     (Inr \<lparr>rp_flags = 0, rp_id = 0, rp_name = ''x'' @ [NUL]\<rparr>) True
   = (OK, Some 0)"
  by (simp add: bus1_peer_ioctl_resolve_def uapi_def cstr_def NUL_def
      bus1_active_is_active_def)

section \<open>Properties of RECV\<close>

text \<open>
  C10.  A RECV whose parameter block was imported and whose output fields are not
  all pre-cleared (\<open>msg_offset\<close> other than \<^verbatim>\<open>BUS1_OFFSET_INVALID\<close>, or one of
  \<open>msg_size\<close>, \<open>msg_ids\<close>, \<open>msg_fds\<close> other than zero) returns \<open>EINVAL\<close>, with or
  without the flag PEEK.  The peer info is as it was, nothing is copied back, and no
  call into the queue, the pool or the descriptor table is made.
\<close>

theorem recv_rejects_uncleared_output:
  assumes "re_import env = Inr param"
    and "rcv_msg_offset param \<noteq> BUS1_OFFSET_INVALID K \<or> rcv_msg_size param \<noteq> 0
         \<or> rcv_msg_ids param \<noteq> 0 \<or> rcv_msg_fds param \<noteq> 0"
  shows "bus1_peer_ioctl_recv K env info = (Inl EINVAL, info, None, [])"
  using assms by (auto simp: bus1_peer_ioctl_recv_def)

theorem recv_rejects_uncleared_output_witness:
  "re_import (recv_env_example recv_param_uncleared) = Inr recv_param_uncleared
   \<and> rcv_msg_fds recv_param_uncleared \<noteq> 0
   \<and> bus1_peer_ioctl_recv uapi (recv_env_example recv_param_uncleared) info_example
       = (Inl EINVAL, info_example, None, [])"
  using recv_rejects_uncleared_output
    [of "recv_env_example recv_param_uncleared" recv_param_uncleared uapi info_example]
  by (simp add: recv_env_example_def recv_param_uncleared_def)

lemma reserve_fds_all_succeed:
  "(\<And>i. length fds \<le> i \<Longrightarrow> i < length fds + k \<Longrightarrow> get i = Inr (fd i)) \<Longrightarrow>
   reserve_fds get k fds = Inr (fds @ map fd [length fds..<length fds + k])"
proof (induction k arbitrary: fds)
  case 0
  then show ?case by simp
next
  case (Suc k)
  have g: "get (length fds) = Inr (fd (length fds))"
    using Suc.prems by simp
  have "reserve_fds get k (fds @ [fd (length fds)]) =
        Inr ((fds @ [fd (length fds)])
             @ map fd [length (fds @ [fd (length fds)])..<
                       length (fds @ [fd (length fds)]) + k])"
    by (rule Suc.IH) (use Suc.prems in simp)
  then show ?case
    using g by (simp add: upt_rec [of "length fds"])
qed

lemma recv_dequeue_loop_first:
  assumes "re_queue_peek env q = Some m"
    and "msg_n_files m > 0 \<longrightarrow> re_krealloc_ok env (msg_n_files m)"
    and "\<And>i. i < msg_n_files m \<Longrightarrow> re_get_unused_fd env i = Inr (fd i)"
  shows "recv_dequeue_loop env q (msg_n_files m) [] =
         Inr (Some m, re_queue_remove env q m, map fd [0..<msg_n_files m],
              [InfoLock, PoolPublish (msg_slice m)]
              @ (if msg_n_files m = 0 then [MessageDeallocate (msg_id m)] else [])
              @ [InfoUnlock])"
proof -
  have r: "reserve_fds (re_get_unused_fd env) (msg_n_files m) [] =
           Inr ([] @ map fd [length ([]::int list)..<length ([]::int list) + msg_n_files m])"
    by (rule reserve_fds_all_succeed) (use assms(3) in simp)
  show ?thesis
    by (subst recv_dequeue_loop.simps) (use assms(1,2) r in auto)
qed

lemma recv_dequeue_first:
  assumes "re_import env = Inr param"
    and "rcv_flags param = 0"
    and "rcv_msg_offset param = BUS1_OFFSET_INVALID K"
    and "rcv_msg_size param = 0" and "rcv_msg_ids param = 0" and "rcv_msg_fds param = 0"
    and "re_queue_peek env (info_queue info) = Some m"
    and "msg_n_files m > 0 \<longrightarrow> re_krealloc_ok env (msg_n_files m)"
    and "\<And>i. i < msg_n_files m \<Longrightarrow> re_get_unused_fd env i = Inr (fd i)"
    and "msg_n_files m > 0 \<longrightarrow> re_pool_write_kvec env (map fd [0..<msg_n_files m]) = Inr k"
    and "re_put_user_ok env"
  shows "\<exists>evs. bus1_peer_ioctl_recv K env info =
           (Inr (if msg_n_files m = 0 then 0 else k),
            info\<lparr>info_queue := re_queue_remove env (info_queue info) m\<rparr>,
            Some (param\<lparr>rcv_msg_offset := slice_offset (msg_slice m),
                         rcv_msg_size := slice_size (msg_slice m),
                         rcv_msg_fds := of_nat (msg_n_files m)\<rparr>), evs)
         \<and> filter is_fd_install evs
           = map (\<lambda>i. FdInstall (fd i) (msg_files m ! i)) (rev [0..<msg_n_files m])"
  using assms recv_dequeue_loop_first [of env "info_queue info" m fd]
  by (simp add: bus1_peer_ioctl_recv_def recv_exit_def bus1_pool_publish_def Let_def
      is_fd_install_def)

text \<open>
  C5.  A RECV with the flag PEEK whose parameter block passes the checks at the head
  of the function: if the queue has no first entry the call returns \<open>EAGAIN\<close>.
  Otherwise, with \<open>m\<close> the first entry, it publishes the slice of \<open>m\<close> and copies back
  its offset, its size and the number of files of \<open>m\<close> (or returns \<open>EFAULT\<close> when the
  copy to user space faults); the only calls made are the lock, the publish and the
  unlock, so no descriptor is installed; and the peer info, with its queue, is as it
  was.  The message is still queued: a RECV without PEEK that follows, in which the
  reservations and copies succeed, dequeues \<open>m\<close>, copies back the same offset and
  size, and installs one descriptor for each file of \<open>m\<close>.  That RECV returns 0
  for a message without files and, for one with files, the non-negative result \<open>k\<close>
  of the write of the descriptors to the pool.
\<close>

theorem recv_peek:
  assumes "re_import env = Inr param"
    and "rcv_flags param AND NOT (BUS1_RECV_FLAG_PEEK K) = 0"
    and "rcv_flags param AND BUS1_RECV_FLAG_PEEK K \<noteq> 0"
    and "rcv_msg_offset param = BUS1_OFFSET_INVALID K"
    and "rcv_msg_size param = 0" and "rcv_msg_ids param = 0" and "rcv_msg_fds param = 0"
  shows "(re_queue_peek env (info_queue info) = None \<longrightarrow>
            bus1_peer_ioctl_recv K env info = (Inl EAGAIN, info, None, []))
       \<and> (\<forall>m. re_queue_peek env (info_queue info) = Some m \<longrightarrow>
            bus1_peer_ioctl_recv K env info =
              (if re_put_user_ok env then Inr 0 else Inl EFAULT,
               info,
               if re_put_user_ok env then
                 Some (param\<lparr>rcv_msg_offset := slice_offset (msg_slice m),
                              rcv_msg_size := slice_size (msg_slice m),
                              rcv_msg_fds := of_nat (msg_n_files m)\<rparr>)
               else None,
               [InfoLock, PoolPublish (msg_slice m), InfoUnlock])
            \<and> (\<forall>env' param' fd k.
                  re_import env' = Inr param' \<and> rcv_flags param' = 0
                  \<and> rcv_msg_offset param' = BUS1_OFFSET_INVALID K
                  \<and> rcv_msg_size param' = 0 \<and> rcv_msg_ids param' = 0
                  \<and> rcv_msg_fds param' = 0
                  \<and> re_queue_peek env' = re_queue_peek env
                  \<and> (msg_n_files m > 0 \<longrightarrow> re_krealloc_ok env' (msg_n_files m))
                  \<and> (\<forall>i < msg_n_files m. re_get_unused_fd env' i = Inr (fd i))
                  \<and> (msg_n_files m > 0 \<longrightarrow>
                       re_pool_write_kvec env' (map fd [0..<msg_n_files m]) = Inr k)
                  \<and> re_put_user_ok env' \<longrightarrow>
                  (\<exists>evs.
                     bus1_peer_ioctl_recv K env' (fst (snd (bus1_peer_ioctl_recv K env info))) =
                       (Inr (if msg_n_files m = 0 then 0 else k),
                        info\<lparr>info_queue := re_queue_remove env' (info_queue info) m\<rparr>,
                        Some (param'\<lparr>rcv_msg_offset := slice_offset (msg_slice m),
                                      rcv_msg_size := slice_size (msg_slice m),
                                      rcv_msg_fds := of_nat (msg_n_files m)\<rparr>), evs)
                     \<and> filter is_fd_install evs =
                         map (\<lambda>i. FdInstall (fd i) (msg_files m ! i))
                           (rev [0..<msg_n_files m]))))"
proof (intro conjI allI impI)
  assume "re_queue_peek env (info_queue info) = None"
  then show "bus1_peer_ioctl_recv K env info = (Inl EAGAIN, info, None, [])"
    using assms by (simp add: bus1_peer_ioctl_recv_def)
next
  fix m
  assume m: "re_queue_peek env (info_queue info) = Some m"
  then show peek: "bus1_peer_ioctl_recv K env info =
              (if re_put_user_ok env then Inr 0 else Inl EFAULT,
               info,
               if re_put_user_ok env then
                 Some (param\<lparr>rcv_msg_offset := slice_offset (msg_slice m),
                              rcv_msg_size := slice_size (msg_slice m),
                              rcv_msg_fds := of_nat (msg_n_files m)\<rparr>)
               else None,
               [InfoLock, PoolPublish (msg_slice m), InfoUnlock])"
    using assms by (simp add: bus1_peer_ioctl_recv_def recv_exit_def bus1_pool_publish_def)
  fix env' :: recv_env and param' :: bus1_cmd_recv and fd :: "nat \<Rightarrow> int" and k :: nat
  assume later: "re_import env' = Inr param' \<and> rcv_flags param' = 0
                  \<and> rcv_msg_offset param' = BUS1_OFFSET_INVALID K
                  \<and> rcv_msg_size param' = 0 \<and> rcv_msg_ids param' = 0
                  \<and> rcv_msg_fds param' = 0
                  \<and> re_queue_peek env' = re_queue_peek env
                  \<and> (msg_n_files m > 0 \<longrightarrow> re_krealloc_ok env' (msg_n_files m))
                  \<and> (\<forall>i < msg_n_files m. re_get_unused_fd env' i = Inr (fd i))
                  \<and> (msg_n_files m > 0 \<longrightarrow>
                       re_pool_write_kvec env' (map fd [0..<msg_n_files m]) = Inr k)
                  \<and> re_put_user_ok env'"
  have same: "fst (snd (bus1_peer_ioctl_recv K env info)) = info"
    by (simp add: peek)
  have "\<exists>evs. bus1_peer_ioctl_recv K env' info =
           (Inr (if msg_n_files m = 0 then 0 else k),
            info\<lparr>info_queue := re_queue_remove env' (info_queue info) m\<rparr>,
            Some (param'\<lparr>rcv_msg_offset := slice_offset (msg_slice m),
                          rcv_msg_size := slice_size (msg_slice m),
                          rcv_msg_fds := of_nat (msg_n_files m)\<rparr>), evs)
         \<and> filter is_fd_install evs
           = map (\<lambda>i. FdInstall (fd i) (msg_files m ! i)) (rev [0..<msg_n_files m])"
    by (rule recv_dequeue_first [where K = K and fd = fd]) (use later m in simp_all)
  then show "\<exists>evs.
               bus1_peer_ioctl_recv K env' (fst (snd (bus1_peer_ioctl_recv K env info))) =
                 (Inr (if msg_n_files m = 0 then 0 else k),
                  info\<lparr>info_queue := re_queue_remove env' (info_queue info) m\<rparr>,
                  Some (param'\<lparr>rcv_msg_offset := slice_offset (msg_slice m),
                                rcv_msg_size := slice_size (msg_slice m),
                                rcv_msg_fds := of_nat (msg_n_files m)\<rparr>), evs)
               \<and> filter is_fd_install evs =
                   map (\<lambda>i. FdInstall (fd i) (msg_files m ! i)) (rev [0..<msg_n_files m])"
    by (simp only: same)
qed

theorem recv_peek_witness:
  "bus1_peer_ioctl_recv uapi (recv_env_example recv_param_peek) info_empty_example
     = (Inl EAGAIN, info_empty_example, None, [])
   \<and> bus1_peer_ioctl_recv uapi (recv_env_example recv_param_peek) info_example
     = (Inr 0, info_example,
        Some \<lparr>rcv_flags = 1, rcv_msg_offset = 128, rcv_msg_size = 64, rcv_msg_ids = 0,
              rcv_msg_fds = 2\<rparr>,
        [InfoLock, PoolPublish \<lparr>slice_offset = 128, slice_size = 64\<rparr>, InfoUnlock])
   \<and> (\<exists>evs. bus1_peer_ioctl_recv uapi (recv_env_example recv_param_dequeue)
               (fst (snd (bus1_peer_ioctl_recv uapi (recv_env_example recv_param_peek)
                            info_example)))
             = (Inr 8,
                info_example\<lparr>info_queue :=
                  \<lparr>q_messages = Node Leaf msg_staged_example Leaf\<rparr>\<rparr>,
                Some \<lparr>rcv_flags = 0, rcv_msg_offset = 128, rcv_msg_size = 64,
                      rcv_msg_ids = 0, rcv_msg_fds = 2\<rparr>, evs)
           \<and> filter is_fd_install evs = [FdInstall 4 12, FdInstall 3 11])"
proof -
  have a: "re_import (recv_env_example recv_param_peek) = Inr recv_param_peek"
    and b: "rcv_flags recv_param_peek AND NOT (BUS1_RECV_FLAG_PEEK uapi) = 0"
    and c: "rcv_flags recv_param_peek AND BUS1_RECV_FLAG_PEEK uapi \<noteq> 0"
    and d: "rcv_msg_offset recv_param_peek = BUS1_OFFSET_INVALID uapi"
    and e: "rcv_msg_size recv_param_peek = 0" "rcv_msg_ids recv_param_peek = 0"
       "rcv_msg_fds recv_param_peek = 0"
    by (simp_all add: recv_env_example_def recv_param_peek_def uapi_def)
  note empty = recv_peek [OF a b c d e, of info_empty_example, THEN conjunct1, rule_format]
  note full = recv_peek [OF a b c d e, of info_example, THEN conjunct2, rule_format,
      of msg_example]
  have first: "re_queue_peek (recv_env_example recv_param_peek) (info_queue info_example)
                 = Some msg_example"
    by (simp add: recv_env_example_def info_example_def queue_first_def)
  have none: "re_queue_peek (recv_env_example recv_param_peek)
                (info_queue info_empty_example) = None"
    by (simp add: recv_env_example_def info_empty_example_def queue_first_def)
  have later: "\<exists>evs. bus1_peer_ioctl_recv uapi (recv_env_example recv_param_dequeue)
               (fst (snd (bus1_peer_ioctl_recv uapi (recv_env_example recv_param_peek)
                            info_example)))
             = (Inr (if msg_n_files msg_example = 0 then 0 else 8),
                info_example\<lparr>info_queue := re_queue_remove
                   (recv_env_example recv_param_dequeue) (info_queue info_example)
                   msg_example\<rparr>,
                Some (recv_param_dequeue\<lparr>rcv_msg_offset := slice_offset (msg_slice msg_example),
                      rcv_msg_size := slice_size (msg_slice msg_example),
                      rcv_msg_fds := of_nat (msg_n_files msg_example)\<rparr>), evs)
           \<and> filter is_fd_install evs =
               map (\<lambda>i. FdInstall ((\<lambda>n. 3 + int n) i) (msg_files msg_example ! i))
                 (rev [0..<msg_n_files msg_example])"
    by (rule full [OF first, THEN conjunct2, rule_format])
      (simp add: recv_env_example_def recv_param_dequeue_def uapi_def msg_n_files_def
        msg_example_def)
  have two: "rev [0..<msg_n_files msg_example] = [1, 0]"
    by (simp add: msg_n_files_def msg_example_def upt_rec)
  show ?thesis
    using empty [OF none] full [OF first, THEN conjunct1] later
    by (simp add: recv_env_example_def recv_param_peek_def recv_param_dequeue_def two
        msg_example_def msg_staged_example_def msg_n_files_def info_example_def
        queue_without_def)
qed

section \<open>Properties of the peer info reset\<close>

lemma reset_nodes_closed_form:
  "reset_nodes ms =
     (map (\<lambda>m. if msg_is_message m then m\<lparr>msg_linked := False\<rparr> else m)
        (filter (\<lambda>m. \<not> (msg_is_message m \<and> msg_committed m)) ms),
      concat (map (\<lambda>m. [MessageDeallocate (msg_id m), MessageFree (msg_id m)])
        (filter (\<lambda>m. msg_is_message m \<and> msg_committed m) ms)))"
  by (induction ms) auto

text \<open>
  The reset in closed form, for any queue.  A node that is not a message is neither
  unlinked nor freed.
\<close>

lemma info_reset_closed_form:
  "bus1_peer_info_reset info =
     (info\<lparr>info_queue := (info_queue info)\<lparr>q_messages := Leaf\<rparr>\<rparr>,
      map (\<lambda>m. if msg_is_message m then m\<lparr>msg_linked := False\<rparr> else m)
        (filter (\<lambda>m. \<not> (msg_is_message m \<and> msg_committed m))
           (postorder (q_messages (info_queue info)))),
      [InfoLock]
      @ concat (map (\<lambda>m. [MessageDeallocate (msg_id m), MessageFree (msg_id m)])
          (filter (\<lambda>m. msg_is_message m \<and> msg_committed m)
             (postorder (q_messages (info_queue info)))))
      @ [QueuePostFlush, PoolFlush, InfoUnlock])"
  by (simp add: bus1_peer_info_reset_def reset_nodes_closed_form bus1_queue_post_flush_def)

text \<open>
  C7.  On a queue whose nodes are all messages (what the \<^verbatim>\<open>WARN_ON\<close> of the loop
  asserts), the reset takes the lock of the info first and releases it last, with no
  other lock or unlock between.  Under the lock it deallocates and frees the
  committed messages, each once and no other, in the order of the iteration; then
  it post-flushes the queue; then it flushes the pool.  The uncommitted nodes are
  not freed: they are the nodes that remain, each unlinked.
\<close>

theorem info_reset_frees_committed:
  assumes "\<forall>m \<in> set_tree (q_messages (info_queue info)). msg_is_message m"
  shows "bus1_peer_info_reset info =
     (info\<lparr>info_queue := (info_queue info)\<lparr>q_messages := Leaf\<rparr>\<rparr>,
      map (\<lambda>m. m\<lparr>msg_linked := False\<rparr>)
        (filter (\<lambda>m. \<not> msg_committed m) (postorder (q_messages (info_queue info)))),
      [InfoLock]
      @ concat (map (\<lambda>m. [MessageDeallocate (msg_id m), MessageFree (msg_id m)])
          (filter msg_committed (postorder (q_messages (info_queue info)))))
      @ [QueuePostFlush, PoolFlush, InfoUnlock])"
proof -
  let ?ns = "postorder (q_messages (info_queue info))"
  have all: "\<forall>m \<in> set ?ns. msg_is_message m"
    using assms by simp
  have f1: "filter (\<lambda>m. \<not> (msg_is_message m \<and> msg_committed m)) ?ns
            = filter (\<lambda>m. \<not> msg_committed m) ?ns"
    using all by (intro filter_cong) auto
  have f2: "filter (\<lambda>m. msg_is_message m \<and> msg_committed m) ?ns = filter msg_committed ?ns"
    using all by (intro filter_cong) auto
  have m1: "map (\<lambda>m. if msg_is_message m then m\<lparr>msg_linked := False\<rparr> else m)
              (filter (\<lambda>m. \<not> msg_committed m) ?ns)
            = map (\<lambda>m. m\<lparr>msg_linked := False\<rparr>) (filter (\<lambda>m. \<not> msg_committed m) ?ns)"
    using all by (intro map_cong) auto
  show ?thesis
    by (simp only: info_reset_closed_form f1 f2 m1)
qed

theorem info_reset_frees_committed_witness:
  "bus1_peer_info_reset info_example =
     (info_empty_example,
      [msg_staged_example\<lparr>msg_linked := False\<rparr>],
      [InfoLock, MessageDeallocate 7, MessageFree 7, QueuePostFlush, PoolFlush, InfoUnlock])"
proof -
  have h: "\<forall>m \<in> set_tree (q_messages (info_queue info_example)). msg_is_message m"
    by (simp add: info_example_def msg_example_def msg_staged_example_def)
  show ?thesis
    using info_reset_frees_committed [OF h]
    by (simp add: info_example_def info_empty_example_def msg_example_def
        msg_staged_example_def)
qed

section \<open>Properties of CONNECT\<close>

text \<open>
  The dispatch of \<^verbatim>\<open>bus1_peer_ioctl_connect\<close> on a peer that is not deactivated: the
  flag PEER or MONITOR selects \<^verbatim>\<open>bus1_peer_connect_new\<close>, and without them the flag
  RESET selects \<^verbatim>\<open>bus1_peer_connect_reset\<close>.
\<close>

lemma connect_dispatch_new:
  assumes "\<not> bus1_active_is_deactivated (peer_active peer)"
    and "cp_flags param AND (BUS1_CONNECT_FLAG_PEER K OR BUS1_CONNECT_FLAG_MONITOR K) \<noteq> 0"
  shows "connect_dispatch K env peer domain param =
           (case bus1_peer_connect_new K env peer domain (ce_uid env) param of
              (r, peer', domain', evs) \<Rightarrow> (r, peer', domain', param, evs))"
  using assms by (simp add: connect_dispatch_def split: prod.splits)

lemma connect_dispatch_reset:
  assumes "\<not> bus1_active_is_deactivated (peer_active peer)"
    and "cp_flags param AND (BUS1_CONNECT_FLAG_PEER K OR BUS1_CONNECT_FLAG_MONITOR K) = 0"
    and "cp_flags param AND BUS1_CONNECT_FLAG_RESET K \<noteq> 0"
  shows "connect_dispatch K env peer domain param =
           (case bus1_peer_connect_reset peer param of
              (r, peer', param', evs) \<Rightarrow> (r, peer', domain, param', evs))"
  using assms by (simp add: connect_dispatch_def split: prod.splits)

text \<open>
  A peer whose reference is active has its info: this holds for a new peer, and
  CONNECT and both teardowns keep it.  So a peer that is neither NEW nor deactivated
  has its info, and the branch of the reset under \<^verbatim>\<open>WARN_ON\<close> is not taken.
\<close>

lemma peer_new_info_invariant: "peer_info_invariant (bus1_peer_new ident)"
  by (simp add: peer_info_invariant_def bus1_peer_new_def)

lemma connect_new_info_invariant:
  assumes "peer_info_invariant peer"
  shows "peer_info_invariant (fst (snd (bus1_peer_connect_new K env peer domain uid param)))"
  using assms
  by (auto simp: bus1_peer_connect_new_def peer_info_invariant_def Let_def
      split: option.splits sum.splits prod.splits)

lemma connect_reset_info_invariant:
  assumes "peer_info_invariant peer"
  shows "peer_info_invariant (fst (snd (bus1_peer_connect_reset peer param)))"
  using assms
  by (auto simp: bus1_peer_connect_reset_def peer_info_invariant_def Let_def
      split: option.splits prod.splits)

lemma connect_dispatch_info_invariant:
  assumes "peer_info_invariant peer"
  shows "peer_info_invariant (fst (snd (connect_dispatch K env peer domain param)))"
proof -
  note n = connect_new_info_invariant [OF assms, of K env domain "ce_uid env" param]
  note r = connect_reset_info_invariant [OF assms, of param]
  show ?thesis
    using assms n r
    by (auto simp: connect_dispatch_def split: prod.splits)
qed

lemma ioctl_connect_info_invariant:
  assumes "peer_info_invariant peer"
  shows "peer_info_invariant (fst (snd (bus1_peer_ioctl_connect K env peer domain)))"
proof (cases "ce_import env")
  case (Inl e)
  then show ?thesis
    using assms by (simp add: bus1_peer_ioctl_connect_def)
next
  case (Inr param)
  obtain r p d q evs where c: "connect_dispatch K env peer domain param = (r, p, d, q, evs)"
    by (metis prod_cases5)
  have "peer_info_invariant p"
    using connect_dispatch_info_invariant [OF assms, of K env domain param] c by simp
  then show ?thesis
    using assms Inr c by (simp add: bus1_peer_ioctl_connect_def split: sum.splits)
qed

lemma teardown_info_invariant:
  assumes "peer_info_invariant peer"
  shows "peer_info_invariant (fst (snd (bus1_peer_teardown new_too peer domain)))"
  using assms
  by (auto simp: bus1_peer_teardown_def bus1_active_cleanup_def bus1_active_drain_def
      bus1_active_deactivate_def peer_info_invariant_def Let_def
      split: prod.splits if_splits)

lemma teardown_domain_info_invariant:
  assumes "peer_info_invariant peer"
  shows "peer_info_invariant (fst (bus1_peer_teardown_domain peer domain))"
  using assms
  by (auto simp: bus1_peer_teardown_domain_def bus1_active_cleanup_def
      peer_info_invariant_def split: prod.splits if_splits)

lemma connected_peer_has_info:
  assumes "peer_info_invariant peer"
    and "\<not> bus1_active_is_new (peer_active peer)"
    and "\<not> bus1_active_is_deactivated (peer_active peer)"
  shows "\<exists>info. peer_info peer = Some info"
  using assms
  by (cases "peer_active peer")
    (auto simp: peer_info_invariant_def bus1_active_is_new_def bus1_active_is_deactivated_def)

text \<open>
  A CONNECT whose import fails returns the error of the import, and one whose flags
  fail a check on the flags returns \<open>EINVAL\<close>, with or without the capability;
  nothing changes.  A CONNECT with RESET and neither PEER nor MONITOR from a caller
  that has the capability passes the checks at the head of
  \<^verbatim>\<open>bus1_peer_ioctl_connect\<close> and reaches the dispatch.
\<close>

lemma ioctl_connect_import_error:
  assumes "ce_import env = Inl e"
  shows "bus1_peer_ioctl_connect K env peer domain = (Inl e, peer, domain, None, [])"
  using assms by (simp add: bus1_peer_ioctl_connect_def)

lemma ioctl_connect_flags_error:
  assumes "ce_import env = Inr param"
    and "cp_flags param AND NOT (BUS1_CONNECT_FLAG_PEER K OR BUS1_CONNECT_FLAG_MONITOR K
           OR BUS1_CONNECT_FLAG_QUERY K OR BUS1_CONNECT_FLAG_RESET K) \<noteq> 0
         \<or> b2n (cp_flags param AND BUS1_CONNECT_FLAG_PEER K \<noteq> 0)
           + b2n (cp_flags param AND BUS1_CONNECT_FLAG_MONITOR K \<noteq> 0)
           + b2n (cp_flags param AND BUS1_CONNECT_FLAG_RESET K \<noteq> 0) > 1"
  shows "bus1_peer_ioctl_connect K env peer domain = (Inl EINVAL, peer, domain, None, [])"
  using assms by (auto simp: bus1_peer_ioctl_connect_def)

lemma flags_no_mode:
  "x AND a = 0 \<Longrightarrow> x AND b = 0 \<Longrightarrow> x AND (a OR b) = 0" for x :: u64
  by (simp add: bit.conj_disj_distrib)

lemma ioctl_connect_reset_dispatch:
  assumes "ce_import env = Inr param"
    and "cp_flags param AND NOT (BUS1_CONNECT_FLAG_PEER K OR BUS1_CONNECT_FLAG_MONITOR K
           OR BUS1_CONNECT_FLAG_QUERY K OR BUS1_CONNECT_FLAG_RESET K) = 0"
    and "cp_flags param AND BUS1_CONNECT_FLAG_PEER K = 0"
    and "cp_flags param AND BUS1_CONNECT_FLAG_MONITOR K = 0"
    and "ce_capable env"
  shows "bus1_peer_ioctl_connect K env peer domain =
           (case connect_dispatch K env peer domain param of
              (Inl e, peer', domain', param', evs) \<Rightarrow> (Inl e, peer', domain', None, evs)
            | (Inr _, peer', domain', param', evs) \<Rightarrow>
                if cp_flags param' AND BUS1_CONNECT_FLAG_QUERY K \<noteq> 0 then
                  (if ce_put_user_ok env then
                     (OK, peer', domain', Some (cp_pool_size param'), evs)
                   else (Inl EFAULT, peer', domain', None, evs))
                else (OK, peer', domain', None, evs))"
  using assms by (simp add: bus1_peer_ioctl_connect_def b2n_def)

text \<open>
  C6, as amended.  A CONNECT whose parameter block was imported, whose flags are
  known and have RESET and neither PEER nor MONITOR, from a caller that has the
  capability.  On a peer that is deactivated the call returns \<open>ESHUTDOWN\<close>.
  Otherwise, on a peer that is still NEW it returns \<open>ENOTCONN\<close>, and on a peer that
  is not NEW it returns \<open>EINVAL\<close> when the pool size passed is not zero or bytes
  follow the fixed part of the parameter block; in these cases nothing changes and no
  call is made.  Otherwise the pool size of the info is written to the parameter
  block and the info is reset, by the calls of the reset and no other; the call
  returns 0, and with QUERY set as well the pool size is copied to user space, or
  the call returns \<open>EFAULT\<close>, the reset done, when that copy faults.  Without
  QUERY nothing is copied to user space.  A peer that is neither NEW nor deactivated
  has its info (\<open>connected_peer_has_info\<close>); for one without, the branch under
  \<^verbatim>\<open>WARN_ON\<close> returns \<open>ESHUTDOWN\<close> and nothing changes.
\<close>

theorem connect_reset_results:
  assumes "ce_import env = Inr param"
    and "cp_flags param AND NOT (BUS1_CONNECT_FLAG_PEER K OR BUS1_CONNECT_FLAG_MONITOR K
           OR BUS1_CONNECT_FLAG_QUERY K OR BUS1_CONNECT_FLAG_RESET K) = 0"
    and "cp_flags param AND BUS1_CONNECT_FLAG_RESET K \<noteq> 0"
    and "cp_flags param AND BUS1_CONNECT_FLAG_PEER K = 0"
    and "cp_flags param AND BUS1_CONNECT_FLAG_MONITOR K = 0"
    and "ce_capable env"
  shows "(bus1_active_is_deactivated (peer_active peer) \<longrightarrow>
            bus1_peer_ioctl_connect K env peer domain =
              (Inl ESHUTDOWN, peer, domain, None, []))
       \<and> (\<not> bus1_active_is_deactivated (peer_active peer)
            \<and> bus1_active_is_new (peer_active peer) \<longrightarrow>
            bus1_peer_ioctl_connect K env peer domain =
              (Inl ENOTCONN, peer, domain, None, []))
       \<and> (\<not> bus1_active_is_deactivated (peer_active peer)
            \<and> \<not> bus1_active_is_new (peer_active peer)
            \<and> (cp_pool_size param \<noteq> 0 \<or> cp_names param \<noteq> []) \<longrightarrow>
            bus1_peer_ioctl_connect K env peer domain =
              (Inl EINVAL, peer, domain, None, []))
       \<and> (\<not> bus1_active_is_deactivated (peer_active peer)
            \<and> \<not> bus1_active_is_new (peer_active peer)
            \<and> cp_pool_size param = 0 \<and> cp_names param = [] \<and> peer_info peer = None \<longrightarrow>
            bus1_peer_ioctl_connect K env peer domain =
              (Inl ESHUTDOWN, peer, domain, None, []))
       \<and> (\<forall>info.
            \<not> bus1_active_is_deactivated (peer_active peer)
            \<and> \<not> bus1_active_is_new (peer_active peer)
            \<and> cp_pool_size param = 0 \<and> cp_names param = []
            \<and> peer_info peer = Some info \<longrightarrow>
            connect_dispatch K env peer domain param =
              (OK, peer\<lparr>peer_info := Some (fst (bus1_peer_info_reset info))\<rparr>, domain,
               param\<lparr>cp_pool_size := pool_size (info_pool info)\<rparr>,
               snd (snd (bus1_peer_info_reset info)))
            \<and> bus1_peer_ioctl_connect K env peer domain =
              (if cp_flags param AND BUS1_CONNECT_FLAG_QUERY K \<noteq> 0 \<and> \<not> ce_put_user_ok env
               then Inl EFAULT else OK,
               peer\<lparr>peer_info := Some (fst (bus1_peer_info_reset info))\<rparr>, domain,
               if cp_flags param AND BUS1_CONNECT_FLAG_QUERY K \<noteq> 0 \<and> ce_put_user_ok env
               then Some (pool_size (info_pool info)) else None,
               snd (snd (bus1_peer_info_reset info))))"
proof -
  note io = ioctl_connect_reset_dispatch [OF assms(1,2,4,5,6), of peer domain]
  have nm: "cp_flags param AND (BUS1_CONNECT_FLAG_PEER K OR BUS1_CONNECT_FLAG_MONITOR K) = 0"
    using assms(4,5) by (rule flags_no_mode)
  have shut: "connect_dispatch K env peer domain param = (Inl ESHUTDOWN, peer, domain, param, [])"
    if "bus1_active_is_deactivated (peer_active peer)"
    using that by (simp add: connect_dispatch_def)
  have disp: "connect_dispatch K env peer domain param =
                (case bus1_peer_connect_reset peer param of
                   (r, peer', param', evs) \<Rightarrow> (r, peer', domain, param', evs))"
    if "\<not> bus1_active_is_deactivated (peer_active peer)"
    using that nm assms(3) by (rule connect_dispatch_reset)
  show ?thesis
  proof (intro conjI allI impI)
    assume "bus1_active_is_deactivated (peer_active peer)"
    then show "bus1_peer_ioctl_connect K env peer domain =
                 (Inl ESHUTDOWN, peer, domain, None, [])"
      by (simp add: io shut)
  next
    assume "\<not> bus1_active_is_deactivated (peer_active peer)
            \<and> bus1_active_is_new (peer_active peer)"
    then show "bus1_peer_ioctl_connect K env peer domain =
                 (Inl ENOTCONN, peer, domain, None, [])"
      by (simp add: io disp bus1_peer_connect_reset_def)
  next
    assume "\<not> bus1_active_is_deactivated (peer_active peer)
            \<and> \<not> bus1_active_is_new (peer_active peer)
            \<and> (cp_pool_size param \<noteq> 0 \<or> cp_names param \<noteq> [])"
    then show "bus1_peer_ioctl_connect K env peer domain =
                 (Inl EINVAL, peer, domain, None, [])"
      by (auto simp: io disp bus1_peer_connect_reset_def)
  next
    assume "\<not> bus1_active_is_deactivated (peer_active peer)
            \<and> \<not> bus1_active_is_new (peer_active peer)
            \<and> cp_pool_size param = 0 \<and> cp_names param = [] \<and> peer_info peer = None"
    then show "bus1_peer_ioctl_connect K env peer domain =
                 (Inl ESHUTDOWN, peer, domain, None, [])"
      by (simp add: io disp bus1_peer_connect_reset_def)
  next
    fix info
    assume a: "\<not> bus1_active_is_deactivated (peer_active peer)
            \<and> \<not> bus1_active_is_new (peer_active peer)
            \<and> cp_pool_size param = 0 \<and> cp_names param = []
            \<and> peer_info peer = Some info"
    then show d: "connect_dispatch K env peer domain param =
              (OK, peer\<lparr>peer_info := Some (fst (bus1_peer_info_reset info))\<rparr>, domain,
               param\<lparr>cp_pool_size := pool_size (info_pool info)\<rparr>,
               snd (snd (bus1_peer_info_reset info)))"
      by (simp add: disp bus1_peer_connect_reset_def split: prod.splits)
    show "bus1_peer_ioctl_connect K env peer domain =
              (if cp_flags param AND BUS1_CONNECT_FLAG_QUERY K \<noteq> 0 \<and> \<not> ce_put_user_ok env
               then Inl EFAULT else OK,
               peer\<lparr>peer_info := Some (fst (bus1_peer_info_reset info))\<rparr>, domain,
               if cp_flags param AND BUS1_CONNECT_FLAG_QUERY K \<noteq> 0 \<and> ce_put_user_ok env
               then Some (pool_size (info_pool info)) else None,
               snd (snd (bus1_peer_info_reset info)))"
      by (simp add: io d)
  qed
qed

theorem connect_reset_results_witness:
  "bus1_peer_ioctl_connect uapi
     (connect_env_example True \<lparr>cp_flags = 8, cp_pool_size = 0, cp_names = []\<rparr>)
     (bus1_peer_new 1) domain_empty
     = (Inl ENOTCONN, bus1_peer_new 1, domain_empty, None, [])
   \<and> bus1_peer_ioctl_connect uapi
       (connect_env_example True \<lparr>cp_flags = 8, cp_pool_size = 4096, cp_names = []\<rparr>)
       peer_example domain_example
     = (Inl EINVAL, peer_example, domain_example, None, [])
   \<and> bus1_peer_ioctl_connect uapi
       (connect_env_example True \<lparr>cp_flags = 8, cp_pool_size = 0, cp_names = ''x''\<rparr>)
       peer_example domain_example
     = (Inl EINVAL, peer_example, domain_example, None, [])
   \<and> bus1_peer_ioctl_connect uapi
       (connect_env_example True \<lparr>cp_flags = 8, cp_pool_size = 0, cp_names = []\<rparr>)
       peer_example domain_example
     = (OK, peer_example\<lparr>peer_info := Some info_empty_example\<rparr>, domain_example, None,
        [InfoLock, MessageDeallocate 7, MessageFree 7, QueuePostFlush, PoolFlush, InfoUnlock])
   \<and> bus1_peer_ioctl_connect uapi
       (connect_env_example True \<lparr>cp_flags = 12, cp_pool_size = 0, cp_names = []\<rparr>)
       peer_example domain_example
     = (OK, peer_example\<lparr>peer_info := Some info_empty_example\<rparr>, domain_example,
        Some 4096,
        [InfoLock, MessageDeallocate 7, MessageFree 7, QueuePostFlush, PoolFlush, InfoUnlock])
   \<and> bus1_peer_ioctl_connect uapi
       (connect_env_example True \<lparr>cp_flags = 8, cp_pool_size = 0, cp_names = []\<rparr>)
       peer_deactivating_example domain_example
     = (Inl ESHUTDOWN, peer_deactivating_example, domain_example, None, [])
   \<and> bus1_peer_ioctl_connect uapi
       (connect_env_example True \<lparr>cp_flags = 8, cp_pool_size = 0, cp_names = []\<rparr>)
       (peer_example\<lparr>peer_info := None\<rparr>) domain_example
     = (Inl ESHUTDOWN, peer_example\<lparr>peer_info := None\<rparr>, domain_example, None, [])"
proof -
  have r: "bus1_peer_info_reset info_example =
      (info_empty_example,
       [msg_staged_example\<lparr>msg_linked := False\<rparr>],
       [InfoLock, MessageDeallocate 7, MessageFree 7, QueuePostFlush, PoolFlush, InfoUnlock])"
    by (simp add: info_reset_closed_form info_example_def info_empty_example_def
        msg_example_def msg_staged_example_def)
  have ps: "pool_size (info_pool info_example) = 4096"
    by (simp add: info_example_def)
  have h: "ce_import (connect_env_example True p) = Inr p"
    "ce_capable (connect_env_example True p)"
    "ce_put_user_ok (connect_env_example True p)" for p
    by (simp_all add: connect_env_example_def)
  have f8: "cp_flags \<lparr>cp_flags = 8, cp_pool_size = ps, cp_names = nm\<rparr>
              AND NOT (BUS1_CONNECT_FLAG_PEER uapi OR BUS1_CONNECT_FLAG_MONITOR uapi
                OR BUS1_CONNECT_FLAG_QUERY uapi OR BUS1_CONNECT_FLAG_RESET uapi) = 0"
    "cp_flags \<lparr>cp_flags = 8, cp_pool_size = ps, cp_names = nm\<rparr>
       AND BUS1_CONNECT_FLAG_RESET uapi \<noteq> 0"
    "cp_flags \<lparr>cp_flags = 8, cp_pool_size = ps, cp_names = nm\<rparr>
       AND BUS1_CONNECT_FLAG_PEER uapi = 0"
    "cp_flags \<lparr>cp_flags = 8, cp_pool_size = ps, cp_names = nm\<rparr>
       AND BUS1_CONNECT_FLAG_MONITOR uapi = 0" for ps nm
    by (simp_all add: uapi_def)
  have f12: "cp_flags \<lparr>cp_flags = 12, cp_pool_size = ps, cp_names = nm\<rparr>
              AND NOT (BUS1_CONNECT_FLAG_PEER uapi OR BUS1_CONNECT_FLAG_MONITOR uapi
                OR BUS1_CONNECT_FLAG_QUERY uapi OR BUS1_CONNECT_FLAG_RESET uapi) = 0"
    "cp_flags \<lparr>cp_flags = 12, cp_pool_size = ps, cp_names = nm\<rparr>
       AND BUS1_CONNECT_FLAG_RESET uapi \<noteq> 0"
    "cp_flags \<lparr>cp_flags = 12, cp_pool_size = ps, cp_names = nm\<rparr>
       AND BUS1_CONNECT_FLAG_PEER uapi = 0"
    "cp_flags \<lparr>cp_flags = 12, cp_pool_size = ps, cp_names = nm\<rparr>
       AND BUS1_CONNECT_FLAG_MONITOR uapi = 0" for ps nm
    by (simp_all add: uapi_def)
  have q: "(8::u64) AND BUS1_CONNECT_FLAG_QUERY uapi = 0"
    "(12::u64) AND BUS1_CONNECT_FLAG_QUERY uapi \<noteq> 0"
    by (simp_all add: uapi_def)
  show ?thesis
    using
      connect_reset_results
        [of "connect_env_example True \<lparr>cp_flags = 8, cp_pool_size = 0, cp_names = []\<rparr>"
            "\<lparr>cp_flags = 8, cp_pool_size = 0, cp_names = []\<rparr>" uapi
            "bus1_peer_new 1" domain_empty,
         OF h(1) f8 h(2)]
      connect_reset_results
        [of "connect_env_example True \<lparr>cp_flags = 8, cp_pool_size = 4096, cp_names = []\<rparr>"
            "\<lparr>cp_flags = 8, cp_pool_size = 4096, cp_names = []\<rparr>" uapi
            peer_example domain_example,
         OF h(1) f8 h(2)]
      connect_reset_results
        [of "connect_env_example True \<lparr>cp_flags = 8, cp_pool_size = 0, cp_names = ''x''\<rparr>"
            "\<lparr>cp_flags = 8, cp_pool_size = 0, cp_names = ''x''\<rparr>" uapi
            peer_example domain_example,
         OF h(1) f8 h(2)]
      connect_reset_results
        [of "connect_env_example True \<lparr>cp_flags = 8, cp_pool_size = 0, cp_names = []\<rparr>"
            "\<lparr>cp_flags = 8, cp_pool_size = 0, cp_names = []\<rparr>" uapi
            peer_example domain_example,
         OF h(1) f8 h(2)]
      connect_reset_results
        [of "connect_env_example True \<lparr>cp_flags = 12, cp_pool_size = 0, cp_names = []\<rparr>"
            "\<lparr>cp_flags = 12, cp_pool_size = 0, cp_names = []\<rparr>" uapi
            peer_example domain_example,
         OF h(1) f12 h(2)]
      connect_reset_results
        [of "connect_env_example True \<lparr>cp_flags = 8, cp_pool_size = 0, cp_names = []\<rparr>"
            "\<lparr>cp_flags = 8, cp_pool_size = 0, cp_names = []\<rparr>" uapi
            peer_deactivating_example domain_example,
         OF h(1) f8 h(2)]
      connect_reset_results
        [of "connect_env_example True \<lparr>cp_flags = 8, cp_pool_size = 0, cp_names = []\<rparr>"
            "\<lparr>cp_flags = 8, cp_pool_size = 0, cp_names = []\<rparr>" uapi
            "peer_example\<lparr>peer_info := None\<rparr>" domain_example,
         OF h(1) f8 h(2)]
    by (simp add: h q r ps bus1_peer_new_def bus1_active_is_new_def
        bus1_active_is_deactivated_def peer_example_def peer_deactivating_example_def)
qed

text \<open>
  C6 as it is stated fails.  The example peer is connected and is disconnected by a
  DISCONNECT; a CONNECT with RESET, pool size 0 and no trailing bytes on the
  disconnected peer, which is not NEW, returns \<open>ESHUTDOWN\<close> and does not succeed.
  On the connected peer, with pool size 0 and no trailing bytes, the same CONNECT
  returns \<open>EPERM\<close> from a caller without the capability, \<open>EINVAL\<close> with PEER set as
  well as RESET or with an unknown flag, and \<open>EFAULT\<close> with QUERY set when the copy
  to user space faults.
\<close>

theorem connect_reset_counterexample:
  "bus1_peer_teardown False peer_example domain_example
     = (OK, peer_disconnected_example, domain_empty,
        [NameKfree ''b'', NameKfree ''a'', UserRelease (Some 1000), InfoLock,
         MessageDeallocate 7, MessageFree 7, QueuePostFlush, PoolFlush, InfoUnlock,
         QueueDestroy, PoolDestroy, QuotaDestroy, InfoKfree])
   \<and> \<not> bus1_active_is_new (peer_active peer_disconnected_example)
   \<and> bus1_peer_ioctl_connect uapi
       (connect_env_example True \<lparr>cp_flags = 8, cp_pool_size = 0, cp_names = []\<rparr>)
       peer_disconnected_example domain_empty
     = (Inl ESHUTDOWN, peer_disconnected_example, domain_empty, None, [])
   \<and> \<not> bus1_active_is_new (peer_active peer_example)
   \<and> bus1_peer_ioctl_connect uapi
       (connect_env_example False \<lparr>cp_flags = 8, cp_pool_size = 0, cp_names = []\<rparr>)
       peer_example domain_example
     = (Inl EPERM, peer_example, domain_example, None, [])
   \<and> bus1_peer_ioctl_connect uapi
       (connect_env_example True \<lparr>cp_flags = 9, cp_pool_size = 0, cp_names = []\<rparr>)
       peer_example domain_example
     = (Inl EINVAL, peer_example, domain_example, None, [])
   \<and> bus1_peer_ioctl_connect uapi
       (connect_env_example True \<lparr>cp_flags = 24, cp_pool_size = 0, cp_names = []\<rparr>)
       peer_example domain_example
     = (Inl EINVAL, peer_example, domain_example, None, [])
   \<and> bus1_peer_ioctl_connect uapi
       ((connect_env_example True \<lparr>cp_flags = 12, cp_pool_size = 0, cp_names = []\<rparr>)
          \<lparr>ce_put_user_ok := False\<rparr>)
       peer_example domain_example
     = (Inl EFAULT, peer_example\<lparr>peer_info := Some info_empty_example\<rparr>, domain_example,
        None,
        [InfoLock, MessageDeallocate 7, MessageFree 7, QueuePostFlush, PoolFlush, InfoUnlock])"
proof -
  have r: "bus1_peer_info_reset info_example =
      (info_empty_example,
       [msg_staged_example\<lparr>msg_linked := False\<rparr>],
       [InfoLock, MessageDeallocate 7, MessageFree 7, QueuePostFlush, PoolFlush, InfoUnlock])"
    by (simp add: info_reset_closed_form info_example_def info_empty_example_def
        msg_example_def msg_staged_example_def)
  have td: "bus1_peer_teardown False peer_example domain_example
     = (OK, peer_disconnected_example, domain_empty,
        [NameKfree ''b'', NameKfree ''a'', UserRelease (Some 1000), InfoLock,
         MessageDeallocate 7, MessageFree 7, QueuePostFlush, PoolFlush, InfoUnlock,
         QueueDestroy, PoolDestroy, QuotaDestroy, InfoKfree])"
    by (simp add: bus1_peer_teardown_def bus1_active_cleanup_def bus1_active_drain_def
        bus1_active_deactivate_def bus1_peer_cleanup_def bus1_peer_name_remove_def
        bus1_peer_info_free_def info_reset_closed_form peer_example_def domain_example_def
        peer_disconnected_example_def domain_empty_def info_example_def msg_example_def
        msg_staged_example_def)
  have shut: "bus1_peer_ioctl_connect uapi
       (connect_env_example True \<lparr>cp_flags = 8, cp_pool_size = 0, cp_names = []\<rparr>)
       peer_disconnected_example domain_empty
     = (Inl ESHUTDOWN, peer_disconnected_example, domain_empty, None, [])"
    by (simp add: bus1_peer_ioctl_connect_def connect_dispatch_def connect_env_example_def
        uapi_def b2n_def peer_disconnected_example_def bus1_active_is_deactivated_def)
  have perm: "bus1_peer_ioctl_connect uapi
       (connect_env_example False \<lparr>cp_flags = 8, cp_pool_size = 0, cp_names = []\<rparr>)
       peer_example domain_example
     = (Inl EPERM, peer_example, domain_example, None, [])"
    by (simp add: bus1_peer_ioctl_connect_def connect_env_example_def uapi_def b2n_def)
  have two: "bus1_peer_ioctl_connect uapi
       (connect_env_example True \<lparr>cp_flags = 9, cp_pool_size = 0, cp_names = []\<rparr>)
       peer_example domain_example
     = (Inl EINVAL, peer_example, domain_example, None, [])"
    by (simp add: bus1_peer_ioctl_connect_def connect_env_example_def uapi_def b2n_def)
  have unknown: "bus1_peer_ioctl_connect uapi
       (connect_env_example True \<lparr>cp_flags = 24, cp_pool_size = 0, cp_names = []\<rparr>)
       peer_example domain_example
     = (Inl EINVAL, peer_example, domain_example, None, [])"
    by (simp add: bus1_peer_ioctl_connect_def connect_env_example_def uapi_def b2n_def)
  have fault: "bus1_peer_ioctl_connect uapi
       ((connect_env_example True \<lparr>cp_flags = 12, cp_pool_size = 0, cp_names = []\<rparr>)
          \<lparr>ce_put_user_ok := False\<rparr>)
       peer_example domain_example
     = (Inl EFAULT, peer_example\<lparr>peer_info := Some info_empty_example\<rparr>, domain_example,
        None,
        [InfoLock, MessageDeallocate 7, MessageFree 7, QueuePostFlush, PoolFlush, InfoUnlock])"
    by (simp add: bus1_peer_ioctl_connect_def connect_dispatch_def bus1_peer_connect_reset_def
        connect_env_example_def uapi_def b2n_def peer_example_def
        bus1_active_is_deactivated_def bus1_active_is_new_def r)
  show ?thesis
    using td shut perm two unknown fault
    by (simp add: bus1_active_is_new_def peer_disconnected_example_def peer_example_def)
qed

text \<open>
  C9, as amended.  A CONNECT whose parameter block was imported and whose flags pass
  the two checks on the flags (no unknown flag, at most one of PEER, MONITOR and
  RESET) returns \<open>EPERM\<close> when the calling file does not have the capability,
  whatever the operation asked for, a pure RESET or a pure QUERY included.  The
  check comes before the dispatch: the peer and the domain are as they were, nothing
  is copied back and no call is made.
\<close>

theorem connect_requires_capability:
  assumes "ce_import env = Inr param"
    and "cp_flags param AND NOT (BUS1_CONNECT_FLAG_PEER K OR BUS1_CONNECT_FLAG_MONITOR K
           OR BUS1_CONNECT_FLAG_QUERY K OR BUS1_CONNECT_FLAG_RESET K) = 0"
    and "b2n (cp_flags param AND BUS1_CONNECT_FLAG_PEER K \<noteq> 0)
         + b2n (cp_flags param AND BUS1_CONNECT_FLAG_MONITOR K \<noteq> 0)
         + b2n (cp_flags param AND BUS1_CONNECT_FLAG_RESET K \<noteq> 0) \<le> 1"
    and "\<not> ce_capable env"
  shows "bus1_peer_ioctl_connect K env peer domain = (Inl EPERM, peer, domain, None, [])"
  using assms by (simp add: bus1_peer_ioctl_connect_def)

theorem connect_requires_capability_witness:
  "\<not> ce_capable (connect_env_example False \<lparr>cp_flags = 8, cp_pool_size = 0, cp_names = []\<rparr>)
   \<and> bus1_peer_ioctl_connect uapi
       (connect_env_example False \<lparr>cp_flags = 8, cp_pool_size = 0, cp_names = []\<rparr>)
       peer_example domain_example
     = (Inl EPERM, peer_example, domain_example, None, [])
   \<and> bus1_peer_ioctl_connect uapi
       (connect_env_example False \<lparr>cp_flags = 4, cp_pool_size = 0, cp_names = []\<rparr>)
       peer_example domain_example
     = (Inl EPERM, peer_example, domain_example, None, [])"
  using connect_requires_capability
    [of "connect_env_example False \<lparr>cp_flags = 8, cp_pool_size = 0, cp_names = []\<rparr>"
        "\<lparr>cp_flags = 8, cp_pool_size = 0, cp_names = []\<rparr>" uapi peer_example domain_example]
    connect_requires_capability
    [of "connect_env_example False \<lparr>cp_flags = 4, cp_pool_size = 0, cp_names = []\<rparr>"
        "\<lparr>cp_flags = 4, cp_pool_size = 0, cp_names = []\<rparr>" uapi peer_example domain_example]
  by (simp add: connect_env_example_def uapi_def b2n_def)

text \<open>
  C9 as it is stated fails: a CONNECT with the two mode flags PEER and RESET from a
  caller without the capability returns \<open>EINVAL\<close>, not \<open>EPERM\<close>, since the checks on
  the flags come before the check of the capability.
\<close>

theorem connect_not_capable_counterexample:
  "\<not> ce_capable (connect_env_example False \<lparr>cp_flags = 9, cp_pool_size = 0, cp_names = []\<rparr>)
   \<and> bus1_peer_ioctl_connect uapi
       (connect_env_example False \<lparr>cp_flags = 9, cp_pool_size = 0, cp_names = []\<rparr>)
       peer_example domain_example
     = (Inl EINVAL, peer_example, domain_example, None, [])"
  by (simp add: bus1_peer_ioctl_connect_def connect_env_example_def uapi_def b2n_def)

section \<open>Properties of SEND\<close>

lemma send_instantiate_loop_fault:
  assumes "i < k"
    and "se_get_user env (ptr + 8 * of_nat (s + i)) = None"
    and "\<And>j. j < i \<Longrightarrow> \<exists>d. se_get_user env (ptr + 8 * of_nat (s + j)) = Some d
                 \<and> se_instantiate_for_id env (s + j) d flags = OK"
  shows "send_instantiate_loop env ptr flags s k =
           (Inl EFAULT,
            map (\<lambda>j. TransactionInstantiate (the (se_get_user env (ptr + 8 * of_nat j))) flags)
              [s..<s + i])"
  using assms
proof (induction k arbitrary: s i)
  case 0
  then show ?case by simp
next
  case (Suc k)
  show ?case
  proof (cases i)
    case 0
    with Suc.prems show ?thesis by simp
  next
    case (Suc i')
    obtain d where d: "se_get_user env (ptr + 8 * of_nat s) = Some d"
      "se_instantiate_for_id env s d flags = OK"
      using Suc.prems(3) [of 0] Suc by auto
    have "send_instantiate_loop env ptr flags (Suc s) k =
           (Inl EFAULT,
            map (\<lambda>j. TransactionInstantiate (the (se_get_user env (ptr + 8 * of_nat j))) flags)
              [Suc s..<Suc s + i'])"
    proof (rule Suc.IH)
      show "i' < k" using Suc.prems(1) Suc by simp
      show "se_get_user env (ptr + 8 * of_nat (Suc s + i')) = None"
        using Suc.prems(2) Suc by simp
      show "\<exists>d. se_get_user env (ptr + 8 * of_nat (Suc s + j)) = Some d
                 \<and> se_instantiate_for_id env (Suc s + j) d flags = OK" if "j < i'" for j
        using Suc.prems(3) [of "Suc j"] that Suc by simp
    qed
    then show ?thesis
      using d Suc by (simp add: upt_rec [of s])
  qed
qed

text \<open>
  C8.  A SEND whose parameter block passes the checks and for which the transaction
  is created; the copy of the destination id at index \<open>i\<close> faults, and the
  destinations before \<open>i\<close> were copied and instantiated.  (With one destination, the
  fast path, \<open>i\<close> is 0.)  Then the call returns \<open>EFAULT\<close>, whatever the flags.  The
  calls made on the transaction are the instantiations for the destinations before
  \<open>i\<close> and then the call that destroys it: no commit is among them.
\<close>

theorem send_destination_fault:
  assumes "se_import env = Inr param"
    and "snd_flags param AND NOT (BUS1_SEND_FLAG_IGNORE_UNKNOWN K
           OR BUS1_SEND_FLAG_CONVEY_ERRORS K) = 0"
    and "snd_n_vecs param \<le> BUS1_VEC_MAX K" and "snd_n_fds param \<le> BUS1_FD_MAX K"
    and "snd_ptr_destinations param = ulong_cast K (snd_ptr_destinations param)"
    and "snd_ptr_vecs param = ulong_cast K (snd_ptr_vecs param)"
    and "snd_ptr_ids param = ulong_cast K (snd_ptr_ids param)"
    and "snd_ptr_fds param = ulong_cast K (snd_ptr_fds param)"
    and "se_transaction_new env = Inr in_buf"
    and "i < unat (snd_n_destinations param)"
    and "se_get_user env (snd_ptr_destinations param + 8 * of_nat i) = None"
    and "\<And>j. j < i \<Longrightarrow> \<exists>d. se_get_user env (snd_ptr_destinations param + 8 * of_nat j) = Some d
                 \<and> se_instantiate_for_id env j d (snd_flags param) = OK"
  shows "bus1_peer_ioctl_send K env =
           (Inl EFAULT,
            map (\<lambda>j. TransactionInstantiate
                        (the (se_get_user env (snd_ptr_destinations param + 8 * of_nat j)))
                        (snd_flags param)) [0..<i]
            @ [TransactionFree (\<not> in_buf)])
         \<and> \<not> list_ex is_commit (snd (bus1_peer_ioctl_send K env))"
proof (cases "snd_n_destinations param = 1")
  case True
  then have "i = 0" using assms(10) by simp
  then show ?thesis
    using assms True
    by (simp add: bus1_peer_ioctl_send_def is_commit_def not_less)
next
  case False
  have loop: "send_instantiate_loop env (snd_ptr_destinations param) (snd_flags param) 0
          (unat (snd_n_destinations param)) =
        (Inl EFAULT,
         map (\<lambda>j. TransactionInstantiate
                        (the (se_get_user env (snd_ptr_destinations param + 8 * of_nat j)))
                        (snd_flags param)) [0..<0 + i])"
    by (rule send_instantiate_loop_fault) (use assms in simp_all)
  have "bus1_peer_ioctl_send K env =
           (Inl EFAULT,
            map (\<lambda>j. TransactionInstantiate
                        (the (se_get_user env (snd_ptr_destinations param + 8 * of_nat j)))
                        (snd_flags param)) [0..<i]
            @ [TransactionFree (\<not> in_buf)])"
    using assms(1-9) False loop
    by (simp add: bus1_peer_ioctl_send_def not_less)
  then show ?thesis
    by (simp add: list_ex_iff is_commit_def image_iff)
qed

theorem send_destination_fault_witness:
  "bus1_peer_ioctl_send uapi (send_env_example 3 user_mem_example)
     = (Inl EFAULT,
        [TransactionInstantiate 21 1, TransactionInstantiate 22 1, TransactionFree False])
   \<and> bus1_peer_ioctl_send uapi (send_env_example 1 (\<lambda>a. None))
     = (Inl EFAULT, [TransactionFree False])"
proof -
  have multi: "bus1_peer_ioctl_send uapi (send_env_example 3 user_mem_example) =
           (Inl EFAULT,
            map (\<lambda>j. TransactionInstantiate
                        (the (se_get_user (send_env_example 3 user_mem_example)
                           (snd_ptr_destinations (send_param_example 3) + 8 * of_nat j)))
                        (snd_flags (send_param_example 3))) [0..<2]
            @ [TransactionFree (\<not> True)])
         \<and> \<not> list_ex is_commit (snd (bus1_peer_ioctl_send uapi
               (send_env_example 3 user_mem_example)))"
  proof (rule send_destination_fault)
    show "\<exists>d. se_get_user (send_env_example 3 user_mem_example)
                 (snd_ptr_destinations (send_param_example 3) + 8 * of_nat j) = Some d
             \<and> se_instantiate_for_id (send_env_example 3 user_mem_example) j d
                 (snd_flags (send_param_example 3)) = OK" if "j < 2" for j
    proof -
      from that have "j = 0 \<or> j = 1" by auto
      then show ?thesis
        by (auto simp: send_env_example_def send_param_example_def user_mem_example_def)
    qed
  qed (simp_all add: send_env_example_def send_param_example_def user_mem_example_def
        uapi_def ulong_cast_def)
  have uni: "bus1_peer_ioctl_send uapi (send_env_example 1 (\<lambda>a. None)) =
           (Inl EFAULT,
            map (\<lambda>j. TransactionInstantiate
                        (the (se_get_user (send_env_example 1 (\<lambda>a. None))
                           (snd_ptr_destinations (send_param_example 1) + 8 * of_nat j)))
                        (snd_flags (send_param_example 1))) [0..<0]
            @ [TransactionFree (\<not> True)])
         \<and> \<not> list_ex is_commit (snd (bus1_peer_ioctl_send uapi
               (send_env_example 1 (\<lambda>a. None))))"
    by (rule send_destination_fault)
      (simp_all add: send_env_example_def send_param_example_def uapi_def ulong_cast_def)
  have two: "[0..<2] = [0, Suc 0]"
    by (simp add: upt_rec)
  show ?thesis
    using multi uni
    by (simp add: two send_env_example_def send_param_example_def user_mem_example_def)
qed

section \<open>Properties of the teardown\<close>

lemma cleanup_names_no_user_release:
  "cleanup_names names domain = (domain', evs) \<Longrightarrow> filter is_user_release evs = []"
  by (induction names arbitrary: domain domain' evs)
    (auto simp: is_user_release_def split: prod.splits)

lemma info_free_no_user_release:
  "filter is_user_release (bus1_peer_info_free p) = []"
  by (cases p)
    (auto simp: bus1_peer_info_free_def info_reset_closed_form is_user_release_def
      filter_empty_conv)

lemma peer_cleanup_runs:
  "bus1_peer_cleanup (peer, domain, []) = (peer', domain', evs) \<Longrightarrow>
   length (filter is_user_release evs) \<le> 1"
  using cleanup_names_no_user_release
  by (auto simp: bus1_peer_cleanup_def is_user_release_def split: option.splits prod.splits)

lemma teardown_step_settled:
  assumes "teardown_settled new_too peer"
  shows "teardown_step new_too c (peer, domain) = (teardown_noop c, (peer, domain))"
  using assms
  by (cases c)
    (auto simp: teardown_settled_def teardown_noop_def bus1_peer_teardown_def
      bus1_peer_teardown_domain_def bus1_active_cleanup_def bus1_active_deactivate_def
      bus1_active_drain_def)

lemma teardown_run_settled:
  assumes "teardown_settled new_too peer"
  shows "teardown_run new_too cs (peer, domain) = (map teardown_noop cs, (peer, domain))"
  using assms by (induction cs) (simp_all add: teardown_step_settled)

lemma teardown_step_first:
  assumes "teardown_calls_ok (c # cs) peer"
    and "teardown_step new_too c (peer, domain) = ((r, evs), (peer', domain'))"
  shows "teardown_settled new_too peer' \<and> length (filter is_user_release evs) \<le> 1"
proof (cases c)
  case Teardown
  show ?thesis
  proof (cases "bus1_active_deactivate new_too (peer_active peer) = DEACTIVATING")
    case True
    obtain p1 d1 e1 where cl:
      "bus1_peer_cleanup (peer\<lparr>peer_active := DEACTIVATING\<rparr>, domain, []) = (p1, d1, e1)"
      by (cases "bus1_peer_cleanup (peer\<lparr>peer_active := DEACTIVATING\<rparr>, domain, [])") auto
    have "length (filter is_user_release e1) \<le> 1"
      using peer_cleanup_runs [OF cl] .
    then show ?thesis
      using assms(2) Teardown True cl info_free_no_user_release [of "peer_info p1"]
      by (auto simp: bus1_peer_teardown_def bus1_active_cleanup_def bus1_active_drain_def
          teardown_settled_def)
  next
    case False
    then show ?thesis
      using assms(2) Teardown
      by (cases "peer_active peer"; cases new_too)
        (auto simp: bus1_peer_teardown_def bus1_active_cleanup_def bus1_active_drain_def
          bus1_active_deactivate_def teardown_settled_def)
  qed
next
  case TeardownDomain
  then have deact: "peer_active peer = DEACTIVATING \<or> peer_active peer = DEAD"
    using assms(1) by (simp add: teardown_calls_ok_def bus1_active_is_deactivated_def)
  show ?thesis
  proof (cases "peer_active peer = DEACTIVATING")
    case True
    obtain p1 d1 e1 where cl: "bus1_peer_cleanup (peer, domain, []) = (p1, d1, e1)"
      by (cases "bus1_peer_cleanup (peer, domain, [])") auto
    have "length (filter is_user_release e1) \<le> 1"
      using peer_cleanup_runs [OF cl] .
    then show ?thesis
      using assms(2) TeardownDomain True cl info_free_no_user_release [of "peer_info p1"]
      by (auto simp: bus1_peer_teardown_domain_def bus1_active_cleanup_def
          teardown_settled_def)
  next
    case False
    with deact have "peer_active peer = DEAD" by simp
    then show ?thesis
      using assms(2) TeardownDomain
      by (auto simp: bus1_peer_teardown_domain_def bus1_active_cleanup_def
          teardown_settled_def)
  qed
qed

text \<open>
  C4.  Any sequence of calls of \<^verbatim>\<open>bus1_peer_teardown\<close> and
  \<^verbatim>\<open>bus1_peer_teardown_domain\<close> on one peer, from any state of the peer and the
  domain (a sequence that starts with the domain-assisted teardown starts on a
  deactivated peer, as its caller guarantees): the body of the cleanup runs at most
  once in the whole sequence, and every call that is not the first does nothing - it
  makes no call, leaves the peer and the domain as they are, and a
  \<^verbatim>\<open>bus1_peer_teardown\<close> among them returns \<open>ESHUTDOWN\<close>.
\<close>

theorem teardown_cleanup_once:
  assumes "teardown_calls_ok cs (fst s)"
  shows "cleanup_runs (fst (teardown_run new_too cs s)) \<le> 1
       \<and> (\<forall>i. 0 < i \<and> i < length cs \<longrightarrow>
            teardown_step new_too (cs ! i) (snd (teardown_run new_too (take i cs) s))
              = (teardown_noop (cs ! i), snd (teardown_run new_too (take i cs) s)))"
proof (cases cs)
  case Nil
  then show ?thesis by (simp add: cleanup_runs_def)
next
  case (Cons c rest)
  obtain peer domain where s: "s = (peer, domain)" by (cases s) auto
  obtain r evs peer' domain' where
    step: "teardown_step new_too c (peer, domain) = ((r, evs), (peer', domain'))"
    by (cases "teardown_step new_too c (peer, domain)") auto
  have first: "teardown_settled new_too peer'" "length (filter is_user_release evs) \<le> 1"
    using teardown_step_first [OF _ step, of rest] assms Cons s by simp_all
  have run: "teardown_run new_too (c # xs) s = ((r, evs) # map teardown_noop xs, (peer', domain'))"
    for xs
    using step s teardown_run_settled [OF first(1)] by simp
  have noop_events: "concat (map (snd \<circ> teardown_noop) xs) = []" for xs
    by (induction xs) (auto simp: teardown_noop_def split: teardown_call.splits)
  have "fst (teardown_run new_too cs s) = (r, evs) # map teardown_noop rest"
    unfolding Cons run by simp
  then have runs: "cleanup_runs (fst (teardown_run new_too cs s)) \<le> 1"
    using first(2) by (simp add: cleanup_runs_def noop_events)
  have later: "teardown_step new_too (cs ! i) (snd (teardown_run new_too (take i cs) s))
              = (teardown_noop (cs ! i), snd (teardown_run new_too (take i cs) s))"
    if "0 < i" "i < length cs" for i
  proof -
    from that(1) obtain j where j: "i = Suc j"
      by (cases i) simp_all
    have tk: "take i cs = c # take j rest"
      by (simp only: j Cons take_Suc_Cons)
    have st: "snd (teardown_run new_too (take i cs) s) = (peer', domain')"
      by (simp only: tk run snd_conv)
    show ?thesis
      by (simp only: st teardown_step_settled [OF first(1)])
  qed
  show ?thesis
  proof (intro conjI allI impI)
    show "cleanup_runs (fst (teardown_run new_too cs s)) \<le> 1"
      by (rule runs)
  next
    fix i
    assume "0 < i \<and> i < length cs"
    then have "0 < i" and "i < length cs" by simp_all
    then show "teardown_step new_too (cs ! i) (snd (teardown_run new_too (take i cs) s))
                 = (teardown_noop (cs ! i), snd (teardown_run new_too (take i cs) s))"
      by (rule later)
  qed
qed

theorem teardown_cleanup_once_witness:
  "cleanup_runs (fst (teardown_run True [TeardownDomain, Teardown, TeardownDomain]
       (peer_deactivating_example, domain_example))) \<le> 1
   \<and> teardown_step True Teardown
       (snd (teardown_run True [TeardownDomain] (peer_deactivating_example, domain_example)))
     = ((Some (Inl ESHUTDOWN), []),
        snd (teardown_run True [TeardownDomain] (peer_deactivating_example, domain_example)))
   \<and> teardown_step True TeardownDomain
       (snd (teardown_run True [TeardownDomain, Teardown]
          (peer_deactivating_example, domain_example)))
     = ((None, []),
        snd (teardown_run True [TeardownDomain, Teardown]
          (peer_deactivating_example, domain_example)))"
proof -
  have ok: "teardown_calls_ok [TeardownDomain, Teardown, TeardownDomain]
              (fst (peer_deactivating_example, domain_example))"
    by (simp add: teardown_calls_ok_def peer_deactivating_example_def
        bus1_active_is_deactivated_def)
  note t = teardown_cleanup_once [OF ok, of True]
  show ?thesis
    using t [THEN conjunct1] t [THEN conjunct2, rule_format, of 1]
      t [THEN conjunct2, rule_format, of 2]
    by (simp add: teardown_noop_def)
qed

section \<open>Properties of the names of a peer\<close>

lemma name_add_cases:
  assumes "index_ordered (dom_map_names d)" and "\<not> pn_linked c"
  shows "(bus1_peer_name_add c d = (Inl EISNAM, c, d)
          \<and> pn_name c \<in> index_names (dom_map_names d))
       \<or> (\<exists>t. bus1_peer_name_add c d =
               (OK, c\<lparr>pn_linked := True\<rparr>,
                d\<lparr>dom_map_names := t, dom_n_names := dom_n_names d + 1\<rparr>)
            \<and> index_ordered t
            \<and> pn_name c \<notin> index_names (dom_map_names d)
            \<and> index_names t = insert (pn_name c) (index_names (dom_map_names d))
            \<and> filter (\<lambda>x. ne_name x \<noteq> pn_name c) (inorder t) = inorder (dom_map_names d))"
proof (cases "name_index_insert \<lparr>ne_name = pn_name c, ne_peer = pn_peer c\<rparr> (dom_map_names d)")
  case (Inl err)
  from name_index_insert_Inl [OF Inl] show ?thesis
    using assms(2) Inl by (simp add: bus1_peer_name_add_def)
next
  case (Inr t)
  from name_index_insert_Inr [OF assms(1) Inr] show ?thesis
    using assms(2) Inr by (auto simp: bus1_peer_name_add_def index_names_def)
qed

lemma filter_names_insert:
  "filter (\<lambda>x. ne_name x \<notin> insert nm S) xs
     = filter (\<lambda>x. ne_name x \<noteq> nm) (filter (\<lambda>x. ne_name x \<notin> S) xs)"
  by (induction xs) auto

lemma filter_names_insert':
  "filter (\<lambda>x. ne_name x \<notin> insert nm S) xs
     = filter (\<lambda>x. ne_name x \<notin> S) (filter (\<lambda>x. ne_name x \<noteq> nm) xs)"
  by (induction xs) auto

lemma linked_names_Nil [simp]: "linked_names [] = {}"
  by (simp add: linked_names_def)

lemma linked_names_Cons:
  "linked_names (c # cs) =
     (if pn_linked c then insert (pn_name c) (linked_names cs) else linked_names cs)"
  by (auto simp: linked_names_def)

lemma linked_names_none: "\<forall>c \<in> set cs. \<not> pn_linked c \<Longrightarrow> linked_names cs = {}"
  by (auto simp: linked_names_def)

lemma filter_names_empty: "filter (\<lambda>x. ne_name x \<notin> {}) xs = xs"
  by simp

lemma link_names_result:
  assumes "index_ordered (dom_map_names d)" and "\<forall>c \<in> set cs. \<not> pn_linked c"
    and "link_names cs d = (r, cs', d')"
  shows "index_ordered (dom_map_names d')
       \<and> filter (\<lambda>x. ne_name x \<notin> linked_names cs')
            (inorder (dom_map_names d')) = inorder (dom_map_names d)
       \<and> dom_n_names d' = dom_n_names d + of_nat (length (filter pn_linked cs'))
       \<and> dom_list_peers d' = dom_list_peers d \<and> dom_n_peers d' = dom_n_peers d
       \<and> (r = OK \<or> r = Inl EISNAM)
       \<and> (r = OK \<longrightarrow> distinct (map pn_name cs)
             \<and> (\<forall>c \<in> set cs. pn_name c \<notin> index_names (dom_map_names d)))"
  using assms
proof (induction cs arbitrary: d r cs' d')
  case Nil
  then show ?case by simp
next
  case (Cons c cs)
  have unl: "\<not> pn_linked c" "\<forall>c \<in> set cs. \<not> pn_linked c"
    using Cons.prems(2) by simp_all
  from name_add_cases [OF Cons.prems(1) unl(1)] show ?case
  proof (elim disjE conjE exE)
    assume add: "bus1_peer_name_add c d = (Inl EISNAM, c, d)"
    have res: "r = Inl EISNAM" "cs' = c # cs" "d' = d"
      using Cons.prems(3) add by simp_all
    have none: "linked_names cs' = {}" "length (filter pn_linked cs') = 0"
      using Cons.prems(2) by (simp_all add: res linked_names_none filter_empty_conv)
    show ?thesis
      using Cons.prems(1) by (simp add: none) (simp add: res)
  next
    fix t
    assume add: "bus1_peer_name_add c d =
               (OK, c\<lparr>pn_linked := True\<rparr>,
                d\<lparr>dom_map_names := t, dom_n_names := dom_n_names d + 1\<rparr>)"
      and t: "index_ordered t" "pn_name c \<notin> index_names (dom_map_names d)"
        "index_names t = insert (pn_name c) (index_names (dom_map_names d))"
        "filter (\<lambda>x. ne_name x \<noteq> pn_name c) (inorder t) = inorder (dom_map_names d)"
    let ?d1 = "d\<lparr>dom_map_names := t, dom_n_names := dom_n_names d + 1\<rparr>"
    obtain r1 cs1 d1' where rest: "link_names cs ?d1 = (r1, cs1, d1')"
      by (cases "link_names cs ?d1") auto
    have res: "r = r1" "cs' = c\<lparr>pn_linked := True\<rparr> # cs1" "d' = d1'"
      using Cons.prems(3) add rest by simp_all
    have ih: "index_ordered (dom_map_names d1')
       \<and> filter (\<lambda>x. ne_name x \<notin> linked_names cs1)
            (inorder (dom_map_names d1')) = inorder (dom_map_names ?d1)
       \<and> dom_n_names d1' = dom_n_names ?d1 + of_nat (length (filter pn_linked cs1))
       \<and> dom_list_peers d1' = dom_list_peers ?d1 \<and> dom_n_peers d1' = dom_n_peers ?d1
       \<and> (r1 = OK \<or> r1 = Inl EISNAM)
       \<and> (r1 = OK \<longrightarrow> distinct (map pn_name cs)
             \<and> (\<forall>c \<in> set cs. pn_name c \<notin> index_names (dom_map_names ?d1)))"
      by (rule Cons.IH [OF _ unl(2) rest]) (simp add: t(1))
    have ln: "linked_names cs' = insert (pn_name c) (linked_names cs1)"
      by (simp add: res linked_names_Cons)
    have "filter (\<lambda>x. ne_name x \<notin> linked_names cs') (inorder (dom_map_names d'))
            = filter (\<lambda>x. ne_name x \<noteq> pn_name c)
                (filter (\<lambda>x. ne_name x \<notin> linked_names cs1) (inorder (dom_map_names d1')))"
      by (simp only: ln filter_names_insert res(3))
    also have "\<dots> = filter (\<lambda>x. ne_name x \<noteq> pn_name c) (inorder t)"
      using ih by simp
    finally have flt: "filter (\<lambda>x. ne_name x \<notin> linked_names cs')
            (inorder (dom_map_names d')) = inorder (dom_map_names d)"
      using t(4) by simp
    have cnt: "dom_n_names d' = dom_n_names d + of_nat (length (filter pn_linked cs'))"
      using ih by (simp add: res)
    have dist: "r = OK \<longrightarrow> distinct (map pn_name (c # cs))
             \<and> (\<forall>c \<in> set (c # cs). pn_name c \<notin> index_names (dom_map_names d))"
      using ih t(2,3) by (auto simp: res)
    have rest_ok: "index_ordered (dom_map_names d')" "dom_list_peers d' = dom_list_peers d"
      "dom_n_peers d' = dom_n_peers d" "r = OK \<or> r = Inl EISNAM"
      using ih by (simp_all add: res)
    show ?thesis
      using rest_ok flt cnt dist by blast
  qed
qed

lemma unlink_names_result:
  assumes "index_ordered (dom_map_names d)" and "unlink_names cs d = (cs', d')"
  shows "inorder (dom_map_names d')
           = filter (\<lambda>x. ne_name x \<notin> linked_names cs)
               (inorder (dom_map_names d))
       \<and> dom_n_names d' = dom_n_names d - of_nat (length (filter pn_linked cs))
       \<and> dom_list_peers d' = dom_list_peers d \<and> dom_n_peers d' = dom_n_peers d"
  using assms
proof (induction cs arbitrary: d cs' d')
  case Nil
  then show ?case by simp
next
  case (Cons c cs)
  obtain c1 d1 where rm: "bus1_peer_name_remove c d = (c1, d1)"
    by (cases "bus1_peer_name_remove c d") auto
  obtain cs1 d1' where rest: "unlink_names cs d1 = (cs1, d1')"
    by (cases "unlink_names cs d1") auto
  have res: "d' = d1'"
    using Cons.prems(2) rm rest by simp
  show ?case
  proof (cases "pn_linked c")
    case True
    then have d1: "d1 = d\<lparr>dom_map_names := rb_erase (pn_name c) (dom_map_names d),
                dom_n_names := dom_n_names d - 1\<rparr>"
      using rm by (simp add: bus1_peer_name_remove_def)
    have ord1: "index_ordered (dom_map_names d1)"
      using Cons.prems(1) by (simp add: d1 rb_erase_ordered)
    note ih = Cons.IH [OF ord1 rest]
    have ln: "linked_names (c # cs) = insert (pn_name c) (linked_names cs)"
      using True by (simp add: linked_names_Cons)
    have "inorder (dom_map_names d')
            = filter (\<lambda>x. ne_name x \<notin> linked_names cs)
                (filter (\<lambda>x. ne_name x \<noteq> pn_name c) (inorder (dom_map_names d)))"
      using ih Cons.prems(1) by (simp add: res d1 rb_erase_inorder)
    then have flt: "inorder (dom_map_names d')
            = filter (\<lambda>x. ne_name x \<notin> linked_names (c # cs)) (inorder (dom_map_names d))"
      by (simp only: ln filter_names_insert')
    have rest_ok: "dom_n_names d' = dom_n_names d - of_nat (length (filter pn_linked (c # cs)))"
      "dom_list_peers d' = dom_list_peers d" "dom_n_peers d' = dom_n_peers d"
      using ih True by (simp_all add: res d1)
    show ?thesis
      using flt rest_ok by blast
  next
    case False
    then have d1: "d1 = d"
      using rm by (simp add: bus1_peer_name_remove_def)
    note ih = Cons.IH [OF _ rest, unfolded d1, OF Cons.prems(1)]
    have ln: "linked_names (c # cs) = linked_names cs"
      using False by (simp add: linked_names_Cons)
    show ?thesis
      using ih False by (simp add: res ln)
  qed
qed

lemma parse_names_unlinked:
  "connect_parse_names K alloc_ok peer buf acc = Inr names \<Longrightarrow>
   \<forall>c \<in> set acc. \<not> pn_linked c \<Longrightarrow> \<forall>c \<in> set names. \<not> pn_linked c"
proof (induction K alloc_ok peer buf acc rule: connect_parse_names.induct)
  case (1 K alloc_ok peer buf names')
  show ?case
  proof (cases "length buf > 0")
    case False
    then have "connect_parse_names K alloc_ok peer buf names' = Inr names'"
      by (subst connect_parse_names.simps) simp
    then show ?thesis using "1.prems" by simp
  next
    case True
    let ?n = "strnlen buf (length buf)"
    from True "1.prems"(1) have ok: "\<not> (?n = 0 \<or> ?n = length buf)"
      by (subst (asm) connect_parse_names.simps) (auto simp: Let_def split: if_splits)
    from True ok "1.prems"(1) obtain pn where
      pn: "bus1_peer_name_new K (alloc_ok (length names')) (cstr buf) peer = Inr pn"
      and rec: "connect_parse_names K alloc_ok peer (drop (?n + 1) buf) (pn # names') = Inr names"
      by (subst (asm) connect_parse_names.simps) (auto simp: Let_def split: if_splits sum.splits)
    have "\<not> pn_linked pn"
      using pn by (auto simp: bus1_peer_name_new_def Let_def split: if_splits)
    then have all: "\<forall>c \<in> set (pn # names'). \<not> pn_linked c"
      using "1.prems"(2) by simp
    show ?thesis
      by (rule "1.IH" [OF True refl ok pn rec all])
  qed
qed

text \<open>
  C3.  A CONNECT with the flag PEER or MONITOR on a peer that is NEW, with its info
  null, in a domain whose index is ordered; the info and the user are obtained and
  the names are parsed and allocated, and the list of candidate names collides: one of
  them is in the index already, or two of them are equal.  Then the call returns
  \<open>EISNAM\<close>.  The index holds the entries it held before the call, in the same
  order, so no candidate has stayed in it; the counter of names and the list and
  counter of peers are as before; and the peer is as before: NEW, without info,
  without names.
\<close>

theorem connect_new_collision_unwinds:
  assumes "bus1_active_is_new (peer_active peer)" and "peer_info peer = None"
    and "index_ordered (dom_map_names domain)"
    and "bus1_peer_info_new K (ce_info_alloc_ok env) (ce_pool_create env) (cp_pool_size param)
           = (Inr info0, evs0)"
    and "ce_user_acquire env uid = Inr user"
    and "connect_parse_names K (ce_name_alloc_ok env) (peer_id peer) (cp_names param) []
           = Inr names"
    and "\<not> distinct (map pn_name names)
         \<or> (\<exists>c \<in> set names. pn_name c \<in> index_names (dom_map_names domain))"
  shows "\<exists>domain' evs.
           bus1_peer_connect_new K env peer domain uid param = (Inl EISNAM, peer, domain', evs)
         \<and> inorder (dom_map_names domain') = inorder (dom_map_names domain)
         \<and> dom_n_names domain' = dom_n_names domain
         \<and> dom_list_peers domain' = dom_list_peers domain
         \<and> dom_n_peers domain' = dom_n_peers domain"
proof -
  have unl: "\<forall>c \<in> set names. \<not> pn_linked c"
    using parse_names_unlinked [OF assms(6)] by simp
  obtain r names' d' where link: "link_names names domain = (r, names', d')"
    by (cases "link_names names domain") auto
  note lr = link_names_result [OF assms(3) unl link]
  have r: "r = Inl EISNAM"
    using lr assms(7) by blast
  obtain names'' d'' where unlink: "unlink_names names' d' = (names'', d'')"
    by (cases "unlink_names names' d'") auto
  have ord': "index_ordered (dom_map_names d')"
    using lr by simp
  note ur = unlink_names_result [OF ord' unlink]
  have "bus1_peer_connect_new K env peer domain uid param =
          (Inl EISNAM, peer, d'',
           evs0 @ connect_error_path names'' (info0\<lparr>info_user := Some user\<rparr>))"
    using assms(1,2,4,5,6) link unlink r
    by (simp add: bus1_peer_connect_new_def)
  moreover have "inorder (dom_map_names d'') = inorder (dom_map_names domain)"
    using ur lr by simp
  moreover have "dom_n_names d'' = dom_n_names domain"
    using ur lr by simp
  moreover have "dom_list_peers d'' = dom_list_peers domain" "dom_n_peers d'' = dom_n_peers domain"
    using ur lr by simp_all
  ultimately show ?thesis by blast
qed

theorem connect_new_collision_unwinds_witness:
  "\<exists>domain' evs.
     bus1_peer_connect_new uapi (connect_env_example True connect_param_ac) (bus1_peer_new 2)
       domain_example 1000 connect_param_ac
       = (Inl EISNAM, bus1_peer_new 2, domain', evs)
     \<and> inorder (dom_map_names domain') =
         [\<lparr>ne_name = ''a'', ne_peer = 1\<rparr>, \<lparr>ne_name = ''b'', ne_peer = 1\<rparr>]
     \<and> dom_n_names domain' = 2
     \<and> dom_list_peers domain' = [1]
     \<and> dom_n_peers domain' = 1"
proof -
  let ?env = "connect_env_example True connect_param_ac"
  let ?names = "[\<lparr>pn_name = ''c'', pn_peer = 2, pn_linked = False\<rparr>,
                 \<lparr>pn_name = ''a'', pn_peer = 2, pn_linked = False\<rparr>]"
  have new: "bus1_active_is_new (peer_active (bus1_peer_new 2))"
    and null: "peer_info (bus1_peer_new 2) = None"
    by (simp_all add: bus1_peer_new_def bus1_active_is_new_def)
  have ord: "index_ordered (dom_map_names domain_example)"
    by (simp add: domain_example_def index_ordered_def)
  have info: "bus1_peer_info_new uapi (ce_info_alloc_ok ?env) (ce_pool_create ?env)
                (cp_pool_size connect_param_ac)
              = (Inr \<lparr>info_user = None, info_pool = \<lparr>pool_size = 4096\<rparr>,
                       info_queue = \<lparr>q_messages = Leaf\<rparr>\<rparr>, [])"
    by (simp add: bus1_peer_info_new_def connect_env_example_def connect_param_ac_def
        uapi_def IS_ALIGNED_def)
  have user: "ce_user_acquire ?env 1000 = Inr 1000"
    by (simp add: connect_env_example_def)
  have parse: "connect_parse_names uapi (ce_name_alloc_ok ?env) (peer_id (bus1_peer_new 2))
                 (cp_names connect_param_ac) [] = Inr ?names"
    by (simp add: connect_parse_names.simps connect_env_example_def connect_param_ac_def
        bus1_peer_new_def bus1_peer_name_new_def uapi_def strnlen_def cstr_def NUL_def)
  have coll: "\<not> distinct (map pn_name ?names)
              \<or> (\<exists>c \<in> set ?names. pn_name c \<in> index_names (dom_map_names domain_example))"
    by (simp add: domain_example_def index_names_def)
  show ?thesis
    using connect_new_collision_unwinds [OF new null ord info user parse coll]
    by (simp add: domain_example_def)
qed

text \<open>
  The check of the names on a reconnect, for names that are passed once each: the
  check succeeds exactly when the names passed are the names of the peer, and the
  reconnect returns \<open>EISCONN\<close> then and \<open>EREMCHG\<close> otherwise, with the peer and
  the domain unchanged.
\<close>

lemma name_check_from_distinct:
  assumes "distinct (map pn_name ps)"
  shows "name_check_from k ps nm =
           (if nm \<notin> set (map pn_name ps) then Inl EREMCHG
            else if nm = last (map pn_name ps) then Inr (k + length ps)
            else Inr 0)"
  using assms
proof (induction ps arbitrary: k)
  case Nil
  then show ?case by simp
next
  case (Cons p ps)
  show ?case
  proof (cases "nm = pn_name p")
    case True
    then have "ps \<noteq> [] \<Longrightarrow> nm \<noteq> last (map pn_name ps)"
      using Cons.prems by (metis distinct.simps(2) last_in_set list.map(2) map_is_Nil_conv)
    then show ?thesis using True by auto
  next
    case False
    then show ?thesis
      using Cons.IH [of "k + 1"] Cons.prems by auto
  qed
qed

lemma names_check_loop_step:
  assumes "n \<noteq> []" and "NUL \<notin> set n"
  shows "names_check_loop peer (nulstr (n # ns)) k old =
           (case bus1_peer_name_check peer n of
              Inl e \<Rightarrow> Inl e
            | Inr r \<Rightarrow>
                names_check_loop peer (nulstr ns) (k + 1) (if r > 0 then r else old))"
proof -
  have len: "strnlen (nulstr (n # ns)) (length (nulstr (n # ns))) = length n"
    using strnlen_name [OF assms(2)] by (simp add: nulstr_Cons)
  have cs: "cstr (nulstr (n # ns)) = n"
    using cstr_name [OF assms(2)] by (simp add: nulstr_Cons)
  have dr: "drop (Suc (length n)) (nulstr (n # ns)) = nulstr ns"
    by (simp add: nulstr_Cons)
  have pos: "length (nulstr (n # ns)) > 0" "length n \<noteq> length (nulstr (n # ns))"
    by (simp_all add: nulstr_Cons)
  show ?thesis
    by (subst names_check_loop.simps)
      (use assms(1) pos in \<open>simp add: len cs dr Let_def cong: sum.case_cong\<close>)
qed

lemma names_check_loop_nulstr:
  assumes "distinct (map pn_name (peer_names peer))"
    and "\<forall>n \<in> set ns. n \<noteq> [] \<and> NUL \<notin> set n"
  shows "names_check_loop peer (nulstr ns) k old =
           (if set ns \<subseteq> set (map pn_name (peer_names peer)) then
              Inr (k + length ns,
                   if peer_names peer \<noteq> [] \<and> last (map pn_name (peer_names peer)) \<in> set ns
                   then length (peer_names peer) else old)
            else Inl EREMCHG)"
  using assms(2)
proof (induction ns arbitrary: k old)
  case Nil
  then show ?case by (simp add: names_check_loop.simps)
next
  case (Cons n ns)
  let ?P = "map pn_name (peer_names peer)"
  have n: "n \<noteq> []" "NUL \<notin> set n" and rest: "\<forall>n \<in> set ns. n \<noteq> [] \<and> NUL \<notin> set n"
    using Cons.prems by simp_all
  note step = names_check_loop_step [OF n, of peer ns k old]
  note chk = name_check_from_distinct [OF assms(1), of 0 n]
  show ?case
  proof (cases "n \<in> set ?P")
    case False
    then have "bus1_peer_name_check peer n = Inl EREMCHG"
      using chk by (simp add: bus1_peer_name_check_def)
    then show ?thesis
      using False by (simp add: step)
  next
    case True
    then have ne: "peer_names peer \<noteq> []" by auto
    show ?thesis
    proof (cases "n = last ?P")
      case l: True
      have c: "bus1_peer_name_check peer n = Inr (length (peer_names peer))"
        using chk True l by (simp add: bus1_peer_name_check_def)
      have "names_check_loop peer (nulstr (n # ns)) k old
              = names_check_loop peer (nulstr ns) (k + 1) (length (peer_names peer))"
        using ne by (simp add: step c)
      also have "\<dots> = (if set ns \<subseteq> set ?P then
              Inr (k + 1 + length ns,
                   if peer_names peer \<noteq> [] \<and> last ?P \<in> set ns
                   then length (peer_names peer) else length (peer_names peer))
            else Inl EREMCHG)"
        by (rule Cons.IH [OF rest])
      finally show ?thesis
        using True l ne by simp
    next
      case l: False
      have c: "bus1_peer_name_check peer n = Inr 0"
        using chk True l by (simp add: bus1_peer_name_check_def)
      have "names_check_loop peer (nulstr (n # ns)) k old
              = names_check_loop peer (nulstr ns) (k + 1) old"
        by (simp add: step c)
      also have "\<dots> = (if set ns \<subseteq> set ?P then
              Inr (k + 1 + length ns,
                   if peer_names peer \<noteq> [] \<and> last ?P \<in> set ns
                   then length (peer_names peer) else old)
            else Inl EREMCHG)"
        by (rule Cons.IH [OF rest])
      finally show ?thesis
        using True l ne by auto
    qed
  qed
qed

lemma names_check_distinct:
  assumes "distinct (map pn_name (peer_names peer))"
    and "distinct ns"
    and "\<forall>n \<in> set ns. n \<noteq> [] \<and> NUL \<notin> set n"
  shows "bus1_peer_names_check peer (nulstr ns) =
           (if set ns = set (map pn_name (peer_names peer)) then OK else Inl EREMCHG)"
proof -
  let ?P = "map pn_name (peer_names peer)"
  note loop = names_check_loop_nulstr [OF assms(1,3), of 0 0]
  have empty: "nulstr ns = [] \<longleftrightarrow> ns = []"
    by (cases ns) (simp_all add: nulstr_Cons)
  show ?thesis
  proof (cases "set ns \<subseteq> set ?P")
    case False
    then have "ns \<noteq> []" by auto
    then show ?thesis
      using False loop by (auto simp: bus1_peer_names_check_def empty)
  next
    case True
    show ?thesis
    proof (cases "ns = []")
      case True
      then show ?thesis
        using loop by (auto simp: bus1_peer_names_check_def)
    next
      case False
      with True have ne: "peer_names peer \<noteq> []" by auto
      have card: "length ns = length (peer_names peer) \<longleftrightarrow> set ns = set ?P"
      proof
        assume "length ns = length (peer_names peer)"
        then have "card (set ns) = card (set ?P)"
          using distinct_card [OF assms(1)] distinct_card [OF assms(2)] by simp
        then show "set ns = set ?P"
          using True by (simp add: card_subset_eq)
      next
        assume "set ns = set ?P"
        then have "card (set ns) = card (set ?P)" by simp
        then show "length ns = length (peer_names peer)"
          using distinct_card [OF assms(1)] distinct_card [OF assms(2)] by simp
      qed
      have last_in: "set ns = set ?P \<Longrightarrow> last ?P \<in> set ns"
        using ne by (metis last_in_set map_is_Nil_conv)
      show ?thesis
        using True False ne loop card last_in
        by (auto simp: bus1_peer_names_check_def empty)
    qed
  qed
qed

lemma connect_new_connected:
  assumes "\<not> bus1_active_is_new (peer_active peer)" and "peer_info peer = Some info"
  shows "bus1_peer_connect_new K env peer domain uid param =
           (if cp_pool_size param \<noteq> pool_size (info_pool info) then Inl EREMCHG
            else (case bus1_peer_names_check peer (cp_names param) of
                    Inl e \<Rightarrow> Inl e | Inr _ \<Rightarrow> Inl EISCONN),
            peer, domain, [])"
  using assms by (simp add: bus1_peer_connect_new_def split: sum.splits)

lemma reconnect_distinct_names:
  assumes "\<not> bus1_active_is_new (peer_active peer)" and "peer_info peer = Some info"
    and "distinct (map pn_name (peer_names peer))"
    and "distinct ns" and "\<forall>n \<in> set ns. n \<noteq> [] \<and> NUL \<notin> set n"
    and "cp_names param = nulstr ns"
  shows "bus1_peer_connect_new K env peer domain uid param =
           (if cp_pool_size param = pool_size (info_pool info)
               \<and> set ns = set (map pn_name (peer_names peer))
            then Inl EISCONN else Inl EREMCHG,
            peer, domain, [])"
  using names_check_distinct [OF assms(3,4,5)]
  by (simp add: connect_new_connected [OF assms(1,2)] assms(6))

text \<open>
  C1.  The claim is that a CONNECT with the flag PEER or MONITOR on a peer that is
  connected returns AlreadyConnected exactly when the pool size and the names passed
  are those of the peer, and RemoteChanged when they differ.  The code does not when
  a name is passed twice.  Here a peer connects with a pool of 4096 bytes and the
  names \<open>a\<close> and \<open>b\<close>; a second CONNECT of the peer with the same pool size and
  the name \<open>a\<close> twice passes two names, both names of the peer and one of them the
  last of its list, so the check of the names succeeds and the call returns
  \<open>EISCONN\<close>, though the peer has the name \<open>b\<close> and the call does not pass it.
\<close>

theorem reconnect_duplicate_name_accepted:
  "bus1_peer_connect_new uapi (connect_env_example True connect_param_ab) (bus1_peer_new 1)
     domain_empty 1000 connect_param_ab
     = (OK, peer_connected_example, domain_example, [])
   \<and> bus1_peer_connect_new uapi (connect_env_example True connect_param_aa)
       peer_connected_example domain_example 1000 connect_param_aa
     = (Inl EISCONN, peer_connected_example, domain_example, [])"
proof
  show "bus1_peer_connect_new uapi (connect_env_example True connect_param_ab)
          (bus1_peer_new 1) domain_empty 1000 connect_param_ab
        = (OK, peer_connected_example, domain_example, [])"
    by (simp add: bus1_peer_connect_new_def connect_env_example_def bus1_peer_new_def
        domain_empty_def connect_param_ab_def uapi_def bus1_active_is_new_def
        bus1_peer_info_new_def IS_ALIGNED_def strnlen_def cstr_def NUL_def
        bus1_peer_name_new_def bus1_peer_name_add_def peer_connected_example_def
        peer_example_def domain_example_def info_empty_example_def
        bus1_active_activate_def connect_parse_names.simps)
  show "bus1_peer_connect_new uapi (connect_env_example True connect_param_aa)
          peer_connected_example domain_example 1000 connect_param_aa
        = (Inl EISCONN, peer_connected_example, domain_example, [])"
    by (simp add: bus1_peer_connect_new_def connect_env_example_def connect_param_aa_def
        uapi_def bus1_active_is_new_def strnlen_def cstr_def NUL_def
        bus1_peer_names_check_def bus1_peer_name_check_def peer_connected_example_def
        peer_example_def domain_example_def info_empty_example_def
        names_check_loop.simps)
qed

end
